theory Spec2Isabelle
  imports Complex_Main "HOL-Library.Sublist" "HOL-Library.Signed_Division"
begin

section \<open>Strings\<close>

text \<open>
  JavaScript strings are modelled as \<^typ>\<open>string\<close>, one \<^typ>\<open>char\<close> per code unit, so
  only the ASCII part of the methods is modelled: \<open>toLowerCase\<close> folds the letters A to Z and
  leaves every other character alone, and white space is the ASCII white space.
  \<open>includesStr\<close> (the method \<open>includes\<close>) is the contiguous-substring test, \<open>startsWith\<close>
  the prefix test, and \<open>trimIsEmpty k\<close> says that \<open>k.trim()\<close> is the empty string.
\<close>

definition toLowerChar :: "char \<Rightarrow> char" where
  "toLowerChar c =
     (case map_of (zip ''ABCDEFGHIJKLMNOPQRSTUVWXYZ'' ''abcdefghijklmnopqrstuvwxyz'') c of
        Some d \<Rightarrow> d
      | None \<Rightarrow> c)"

definition toLowerCase :: "string \<Rightarrow> string" where
  "toLowerCase s = map toLowerChar s"

definition includesStr :: "string \<Rightarrow> string \<Rightarrow> bool" where
  "includesStr s p = sublist p s"

definition startsWith :: "string \<Rightarrow> string \<Rightarrow> bool" where
  "startsWith s p = prefix p s"

definition isWhiteSpace :: "char \<Rightarrow> bool" where
  "isWhiteSpace c = (c \<in> set [CHR '' '', CHR 0x09, CHR 0x0A, CHR 0x0B, CHR 0x0C, CHR 0x0D])"

definition trimIsEmpty :: "string \<Rightarrow> bool" where
  "trimIsEmpty k = list_all isWhiteSpace k"

section \<open>Thrown values\<close>

text \<open>
  What a \<open>catch\<close> block receives: an \<open>Error\<close> object with its message, or any other value,
  kept as the text \<open>String(value)\<close> gives.
\<close>

datatype exn = Error string | Thrown string

section \<open>Configuration storage\<close>

text \<open>
  \<open>localStorage\<close> and \<open>process.env\<close> as \<open>loadKeys\<close> reads them.  The item
  \<open>gemini_api_keys\<close> is kept as what \<open>JSON.parse\<close> makes of its text: \<open>None\<close> when the item
  is absent or empty, \<open>Unparseable\<close> when \<open>JSON.parse\<close> throws.  In an array, \<open>k.trim()\<close>
  throws on the first element that is not a string, and the \<open>catch\<close> leaves no key at all;
  \<open>filterKeys\<close> returns \<open>None\<close> then.  \<open>configuredKeys\<close> is the value \<open>loadKeys\<close> assigns
  to \<open>this.keys\<close>.
\<close>

datatype json = JString string | JArray "json list" | JOther

datatype stored = Unparseable | Parsed json

record storage =
  gemini_api_keys :: "stored option"
  gemini_api_key :: "string option"
  env_API_KEY :: "string option"

definition truthy :: "string option \<Rightarrow> bool" where
  "truthy v = (case v of None \<Rightarrow> False | Some t \<Rightarrow> t \<noteq> [])"

fun filterKeys :: "json list \<Rightarrow> string list option" where
  "filterKeys [] = Some []"
| "filterKeys (JString k # ks) =
     (case filterKeys ks of
        None \<Rightarrow> None
      | Some r \<Rightarrow> Some (if trimIsEmpty k then r else k # r))"
| "filterKeys (_ # ks) = None"

definition parseStoredKeys :: "stored \<Rightarrow> string list" where
  "parseStoredKeys v =
     (case v of
        Unparseable \<Rightarrow> []
      | Parsed (JArray parsed) \<Rightarrow> (case filterKeys parsed of None \<Rightarrow> [] | Some r \<Rightarrow> r)
      | Parsed _ \<Rightarrow> [])"

definition configuredKeys :: "storage \<Rightarrow> string list" where
  "configuredKeys cfg =
     (let storedKeys = gemini_api_keys cfg;
          legacyKey = (if truthy (gemini_api_key cfg) then gemini_api_key cfg else env_API_KEY cfg);
          newKeys = (case storedKeys of None \<Rightarrow> [] | Some v \<Rightarrow> parseStoredKeys v);
          newKeys = (if newKeys = [] \<and> truthy legacyKey then [the legacyKey] else newKeys);
          newKeys = (if newKeys = [] \<and> truthy (env_API_KEY cfg) then [the (env_API_KEY cfg)] else newKeys)
      in newKeys)"

section \<open>Program state and effects\<close>

record request =
  model :: string
  contents :: string
  systemInstruction :: string
  responseMimeType :: "string option"
  responseSchema :: "string option"
  googleSearchTool :: bool

datatype event =
    NewClient "string option"
  | Invoke "string option" request
  | Sleep real

text \<open>
  \<open>keys\<close>, \<open>currentIndex\<close> and \<open>initialized\<close> are the fields of \<open>KeyManager\<close>.
  \<open>draws\<close> counts the calls of \<open>Math.random\<close>, \<open>calls\<close> the requests sent, and \<open>trace\<close>
  lists the observable actions in order: a client built for a key, a request sent with a
  client, a \<open>delay\<close> of so many milliseconds.

  The surroundings are parameters.  \<open>rnd n\<close> is the number the \<open>n\<close>-th call of
  \<open>Math.random\<close> returns; times are real numbers.  \<open>cfg\<close> is the configuration storage,
  read again by every \<open>loadKeys\<close> and not written by any function here, so one run of the
  call executor sees the same \<open>cfg\<close> throughout.
\<close>

record state =
  keys :: "string list"
  currentIndex :: int
  initialized :: bool
  draws :: nat
  calls :: nat
  trace :: "event list"

definition initialState :: state where
  "initialState = \<lparr>keys = [], currentIndex = 0, initialized = False, draws = 0, calls = 0, trace = []\<rparr>"

definition Math_random :: "(nat \<Rightarrow> real) \<Rightarrow> state \<Rightarrow> real \<times> state" where
  "Math_random rnd s = (rnd (draws s), s\<lparr>draws := Suc (draws s)\<rparr>)"

definition delay :: "real \<Rightarrow> state \<Rightarrow> state" where
  "delay ms s = s\<lparr>trace := trace s @ [Sleep ms]\<rparr>"

section \<open>The key manager\<close>

definition loadKeys :: "(nat \<Rightarrow> real) \<Rightarrow> storage \<Rightarrow> state \<Rightarrow> state" where
  "loadKeys rnd cfg s =
     (let s1 = s\<lparr>keys := configuredKeys cfg\<rparr>
      in if \<not> initialized s1 \<and> length (keys s1) > 0 then
           (let (r, s2) = Math_random rnd s1
            in s2\<lparr>currentIndex := \<lfloor>r * real (length (keys s2))\<rfloor>, initialized := True\<rparr>)
         else if length (keys s1) > 0 then
           (if currentIndex s1 \<ge> int (length (keys s1)) then s1\<lparr>currentIndex := 0\<rparr> else s1)
         else s1)"

text \<open>
  Reading an array outside its bounds gives \<open>undefined\<close>, here \<open>None\<close>.  The operator
  \<open>%\<close> of the source is the remainder that takes the sign of the dividend, \<open>smod\<close>.
\<close>

definition keyAt :: "string list \<Rightarrow> int \<Rightarrow> string option" where
  "keyAt ks i = (if 0 \<le> i \<and> i < int (length ks) then Some (ks ! nat i) else None)"

definition getCurrentKey :: "(nat \<Rightarrow> real) \<Rightarrow> storage \<Rightarrow> state \<Rightarrow> (exn + string option) \<times> state" where
  "getCurrentKey rnd cfg s =
     (let s1 = loadKeys rnd cfg s
      in if length (keys s1) = 0 then
           (Inl (Error ''Gemini API key not found. Please add keys in the settings modal (gear icon).''), s1)
         else (Inr (keyAt (keys s1) (currentIndex s1)), s1))"

definition rotate_key :: "state \<Rightarrow> bool \<times> state" where
  "rotate_key s =
     (if length (keys s) \<le> 1 then (False, s)
      else (True, s\<lparr>currentIndex := (currentIndex s + 1) smod int (length (keys s))\<rparr>))"

definition getAiClient :: "(nat \<Rightarrow> real) \<Rightarrow> storage \<Rightarrow> state \<Rightarrow> (exn + string option) \<times> state" where
  "getAiClient rnd cfg s =
     (case getCurrentKey rnd cfg s of
        (Inl error, s1) \<Rightarrow> (Inl error, s1)
      | (Inr apiKey, s1) \<Rightarrow> (Inr apiKey, s1\<lparr>trace := trace s1 @ [NewClient apiKey]\<rparr>))"

section \<open>Classification of failures\<close>

text \<open>
  The two ways the source reads the text of a caught value:
  \<open>error instanceof Error ? error.message.toLowerCase() : ''\<close> and
  \<open>error instanceof Error ? error.message.toLowerCase() : String(error).toLowerCase()\<close>.
\<close>

definition lowerMessageOrEmpty :: "exn \<Rightarrow> string" where
  "lowerMessageOrEmpty error = (case error of Error m \<Rightarrow> toLowerCase m | Thrown _ \<Rightarrow> [])"

definition lowerMessageOrString :: "exn \<Rightarrow> string" where
  "lowerMessageOrString error = (case error of Error m \<Rightarrow> toLowerCase m | Thrown t \<Rightarrow> toLowerCase t)"

definition isRotationTrigger :: "exn \<Rightarrow> bool" where
  "isRotationTrigger error =
     (let errorMessage = lowerMessageOrString error
      in includesStr errorMessage ''429'' \<or>
         includesStr errorMessage ''quota'' \<or>
         includesStr errorMessage ''limit'' \<or>
         includesStr errorMessage ''exhausted'' \<or>
         includesStr errorMessage ''403'' \<or>
         includesStr errorMessage ''permission denied'' \<or>
         includesStr errorMessage ''suspended'' \<or>
         includesStr errorMessage ''consumer'')"

text \<open>The first test of the \<open>catch\<close> block in \<open>withRateLimitHandling\<close>.\<close>

definition isHardQuotaZero :: "exn \<Rightarrow> bool" where
  "isHardQuotaZero error =
     (let errorMessage = lowerMessageOrEmpty error
      in includesStr errorMessage ''limit: 0'' \<or> includesStr errorMessage ''quota exceeded for metric'')"

section \<open>The inner retry loop\<close>

text \<open>
  \<open>withRateLimitHandling_loop\<close> is the \<open>for\<close> loop of \<open>withRateLimitHandling\<close>, entered
  with \<open>attempt = 1\<close>; each branch that throws returns \<open>Inl\<close>.
\<close>

definition MAX_RETRIES :: nat where
  "MAX_RETRIES = 5"

definition backoffTime :: "bool \<Rightarrow> nat \<Rightarrow> real \<Rightarrow> real" where
  "backoffTime shouldRotate attempt r =
     (if shouldRotate then 8000 + r * 4000 else 2 ^ attempt * 1000 + r * 500)"

function withRateLimitHandling_loop ::
  "(nat \<Rightarrow> real) \<Rightarrow> (state \<Rightarrow> (exn + 'r) \<times> state) \<Rightarrow> nat \<Rightarrow> state \<Rightarrow> (exn + 'r) \<times> state" where
  "withRateLimitHandling_loop rnd apiCall attempt s =
     (if attempt \<le> MAX_RETRIES then
        (case apiCall s of
           (Inr v, s1) \<Rightarrow> (Inr v, s1)
         | (Inl error, s1) \<Rightarrow>
             (if isHardQuotaZero error then
                (Inl (Error (''API Quota Exceeded (Limit: 0) or Model Unavailable: '' @ lowerMessageOrEmpty error)), s1)
              else
                (let shouldRotate = isRotationTrigger error;
                     hasBackupKeys = length (keys s1) > 1
                 in if shouldRotate \<and> hasBackupKeys then (Inl error, s1)
                    else if attempt = MAX_RETRIES then
                      (if shouldRotate then
                         (Inl (Error (''Quota Exceeded or Key Suspended: '' @ lowerMessageOrEmpty error)), s1)
                       else (Inl error, s1))
                    else
                      (let (r, s2) = Math_random rnd s1
                       in withRateLimitHandling_loop rnd apiCall (attempt + 1)
                            (delay (backoffTime shouldRotate attempt r) s2)))))
      else (Inl (Error ''API call failed after internal retries.''), s))"
  by pat_completeness auto
termination
  by (relation "measure (\<lambda>(rnd, apiCall, attempt, s). Suc MAX_RETRIES - attempt)") auto

definition withRateLimitHandling ::
  "(nat \<Rightarrow> real) \<Rightarrow> (state \<Rightarrow> (exn + 'r) \<times> state) \<Rightarrow> state \<Rightarrow> (exn + 'r) \<times> state" where
  "withRateLimitHandling rnd apiCall s = withRateLimitHandling_loop rnd apiCall 1 s"

section \<open>The call executor\<close>

text \<open>
  \<open>maxAttemptsOf\<close> is the bound \<open>maxAttempts\<close>, computed once from the keys just loaded;
  \<open>executeWithKeyRotation_loop\<close> is the \<open>for\<close> loop, entered with \<open>attempt = 0\<close>.
\<close>

definition maxAttemptsOf :: "state \<Rightarrow> nat" where
  "maxAttemptsOf s = (if length (keys s) > 0 then length (keys s) else 1)"

text \<open>The body of the \<open>try\<close> block of one outer attempt.\<close>

definition tryAttempt ::
  "(nat \<Rightarrow> real) \<Rightarrow> storage \<Rightarrow> (string option \<Rightarrow> state \<Rightarrow> (exn + 'r) \<times> state) \<Rightarrow> state
     \<Rightarrow> (exn + 'r) \<times> state" where
  "tryAttempt rnd cfg operation s =
     (case getAiClient rnd cfg s of
        (Inl error, s1) \<Rightarrow> (Inl error, s1)
      | (Inr client, s1) \<Rightarrow> withRateLimitHandling rnd (operation client) s1)"

function executeWithKeyRotation_loop ::
  "(nat \<Rightarrow> real) \<Rightarrow> storage \<Rightarrow> (string option \<Rightarrow> state \<Rightarrow> (exn + 'r) \<times> state) \<Rightarrow> nat \<Rightarrow> nat \<Rightarrow> state
     \<Rightarrow> (exn + 'r) \<times> state" where
  "executeWithKeyRotation_loop rnd cfg operation maxAttempts attempt s =
     (if attempt < maxAttempts then
        (case tryAttempt rnd cfg operation s of
           (Inr v, s1) \<Rightarrow> (Inr v, s1)
         | (Inl error, s1) \<Rightarrow>
             (let errorMessage = lowerMessageOrEmpty error;
                  shouldRotate = isRotationTrigger error
              in if shouldRotate \<and> length (keys s1) > 1 then
                   executeWithKeyRotation_loop rnd cfg operation maxAttempts (attempt + 1)
                     (delay 10000 (snd (rotate_key s1)))
                 else if attempt = maxAttempts - 1 then
                   (if shouldRotate then
                      (Inl (Error (''All Gemini API Keys exhausted (Quota/Suspended). Last error: '' @ errorMessage)), s1)
                    else (Inl error, s1))
                 else (Inl error, s1)))
      else (Inl (Error ''All Gemini API Keys exhausted (Rotation loop ended without success).''), s))"
  by pat_completeness auto
termination
  by (relation "measure (\<lambda>(rnd, cfg, operation, maxAttempts, attempt, s). maxAttempts - attempt)") auto

definition executeWithKeyRotation ::
  "(nat \<Rightarrow> real) \<Rightarrow> storage \<Rightarrow> (string option \<Rightarrow> state \<Rightarrow> (exn + 'r) \<times> state) \<Rightarrow> string \<Rightarrow> state
     \<Rightarrow> (exn + 'r) \<times> state" where
  "executeWithKeyRotation rnd cfg operation modelName s =
     (let s0 = loadKeys rnd cfg s;
          maxAttempts = maxAttemptsOf s0
      in executeWithKeyRotation_loop rnd cfg operation maxAttempts 0 s0)"

section \<open>The model invocation layer\<close>

text \<open>
  \<open>net\<close> is the backend: what the request sent as the \<open>n\<close>-th one, with the given
  credential, comes back with.
\<close>

definition generateContent ::
  "(nat \<Rightarrow> string option \<Rightarrow> request \<Rightarrow> exn + 'r) \<Rightarrow> request \<Rightarrow> string option \<Rightarrow> state
     \<Rightarrow> (exn + 'r) \<times> state" where
  "generateContent net req aiClient s =
     (net (calls s) aiClient req, s\<lparr>calls := Suc (calls s), trace := trace s @ [Invoke aiClient req]\<rparr>)"

record config =
  jsonOutput :: bool
  configResponseSchema :: "string option"
  googleSearch :: bool

definition buildRequest :: "string \<Rightarrow> string \<Rightarrow> string \<Rightarrow> config \<Rightarrow> request" where
  "buildRequest m systemInstr userPrompt config =
     \<lparr>model = m,
      contents = userPrompt,
      systemInstruction = systemInstr,
      responseMimeType = (if jsonOutput config then Some ''application/json'' else None),
      responseSchema = configResponseSchema config,
      googleSearchTool = googleSearch config\<rparr>"

definition isQuotaExhausted :: "exn \<Rightarrow> bool" where
  "isQuotaExhausted error =
     (let errStr = lowerMessageOrString error
      in includesStr errStr ''exhausted'' \<or> includesStr errStr ''quota'' \<or>
         includesStr errStr ''limit'' \<or> includesStr errStr ''429'')"

definition callModel ::
  "(nat \<Rightarrow> real) \<Rightarrow> storage \<Rightarrow> (nat \<Rightarrow> string option \<Rightarrow> request \<Rightarrow> exn + 'r)
     \<Rightarrow> string \<Rightarrow> string \<Rightarrow> string \<Rightarrow> config \<Rightarrow> state \<Rightarrow> (exn + 'r) \<times> state" where
  "callModel rnd cfg net m systemInstr userPrompt config s =
     (if startsWith m ''gemini-'' then
        (case executeWithKeyRotation rnd cfg
                (generateContent net (buildRequest m systemInstr userPrompt config)) m s of
           (Inr v, s1) \<Rightarrow> (Inr v, s1)
         | (Inl error, s1) \<Rightarrow>
             (if isQuotaExhausted error \<and> m = ''gemini-2.5-flash'' then
                (let fallbackModel = ''gemini-2.0-flash''
                 in executeWithKeyRotation rnd cfg
                      (generateContent net (buildRequest fallbackModel systemInstr userPrompt config))
                      fallbackModel s1)
              else (Inl error, s1)))
      else (Inl (Error (''Unsupported model: '' @ m)), s))"

section \<open>Observations on states and traces\<close>

text \<open>
  The three methods of \<open>KeyManager\<close>, called in any order and with any configuration
  storage, by \<open>applyPoolOps\<close>.
\<close>

datatype pool_op = LoadKeys storage | GetCurrentKey storage | Rotate

fun applyPoolOp :: "(nat \<Rightarrow> real) \<Rightarrow> state \<Rightarrow> pool_op \<Rightarrow> state" where
  "applyPoolOp rnd s (LoadKeys cfg) = loadKeys rnd cfg s"
| "applyPoolOp rnd s (GetCurrentKey cfg) = snd (getCurrentKey rnd cfg s)"
| "applyPoolOp rnd s Rotate = snd (rotate_key s)"

definition applyPoolOps :: "(nat \<Rightarrow> real) \<Rightarrow> state \<Rightarrow> pool_op list \<Rightarrow> state" where
  "applyPoolOps rnd s ops = foldl (applyPoolOp rnd) s ops"

definition indexInBounds :: "state \<Rightarrow> bool" where
  "indexInBounds s =
     (length (keys s) > 0 \<longrightarrow> 0 \<le> currentIndex s \<and> currentIndex s < int (length (keys s)))"

text \<open>\<open>Math.random\<close> returns a number from 0 up to, not including, 1.\<close>

definition unitInterval :: "(nat \<Rightarrow> real) \<Rightarrow> bool" where
  "unitInterval rnd = (\<forall>n. 0 \<le> rnd n \<and> rnd n < 1)"

fun isNewClient :: "event \<Rightarrow> bool" where
  "isNewClient (NewClient _) = True"
| "isNewClient _ = False"

text \<open>Every outer attempt of a non-empty pool builds one client.\<close>

definition outerAttempts :: "event list \<Rightarrow> nat" where
  "outerAttempts tr = length (filter isNewClient tr)"

fun requestsOf :: "event list \<Rightarrow> request list" where
  "requestsOf [] = []"
| "requestsOf (Invoke c r # evs) = r # requestsOf evs"
| "requestsOf (_ # evs) = requestsOf evs"

text \<open>A backend that fails every request \<open>req\<close> with an error of the kind \<open>P\<close>.\<close>

definition alwaysFails ::
  "(exn \<Rightarrow> bool) \<Rightarrow> (nat \<Rightarrow> string option \<Rightarrow> request \<Rightarrow> exn + 'r) \<Rightarrow> request \<Rightarrow> bool" where
  "alwaysFails P net req = (\<forall>n c. \<exists>e. net n c req = Inl e \<and> P e)"

section \<open>Example inputs\<close>

definition rndFixed :: "nat \<Rightarrow> real" where
  "rndFixed n = 3 / 4"

definition storageAB :: storage where
  "storageAB = \<lparr>gemini_api_keys = Some (Parsed (JArray [JString ''A'', JString ''B''])),
                 gemini_api_key = None, env_API_KEY = None\<rparr>"

definition storageK :: storage where
  "storageK = \<lparr>gemini_api_keys = None, gemini_api_key = Some ''K'', env_API_KEY = None\<rparr>"

definition storageNone :: storage where
  "storageNone = \<lparr>gemini_api_keys = Some Unparseable, gemini_api_key = Some [], env_API_KEY = None\<rparr>"

definition plainConfig :: config where
  "plainConfig = \<lparr>jsonOutput = False, configResponseSchema = None, googleSearch = False\<rparr>"

definition proRequest :: request where
  "proRequest = buildRequest ''gemini-2.5-pro'' ''system'' ''prompt'' plainConfig"

text \<open>Backends: one that answers, and ones that fail in a fixed way.\<close>

definition netOk :: "nat \<Rightarrow> string option \<Rightarrow> request \<Rightarrow> exn + string" where
  "netOk n k r = Inr ''text''"

definition netRateLimited :: "nat \<Rightarrow> string option \<Rightarrow> request \<Rightarrow> exn + string" where
  "netRateLimited n k r = Inl (Error ''429 Too Many Requests'')"

definition netZeroQuotaFirst :: "nat \<Rightarrow> string option \<Rightarrow> request \<Rightarrow> exn + string" where
  "netZeroQuotaFirst n k r = (if n = 0 then Inl (Error ''Quota exceeded, limit: 0'') else Inr ''text'')"

definition netOverloaded :: "nat \<Rightarrow> string option \<Rightarrow> request \<Rightarrow> exn + string" where
  "netOverloaded n k r = Inl (Error ''503 Service Unavailable'')"

definition netFlashRateLimited :: "nat \<Rightarrow> string option \<Rightarrow> request \<Rightarrow> exn + string" where
  "netFlashRateLimited n k r =
     (if model r = ''gemini-2.5-flash'' then Inl (Error ''429 Too Many Requests'') else Inr ''text'')"

section \<open>Strings and the key manager: basic facts\<close>

declare withRateLimitHandling_loop.simps [simp del]
declare executeWithKeyRotation_loop.simps [simp del]

lemma includesStr_append: "includesStr a p \<Longrightarrow> includesStr (a @ b) p"
  unfolding includesStr_def by (metis sublist_append)

lemma keys_loadKeys: "keys (loadKeys rnd cfg s) = configuredKeys cfg"
  by (simp add: loadKeys_def Math_random_def Let_def)

lemma trace_loadKeys: "trace (loadKeys rnd cfg s) = trace s"
  by (simp add: loadKeys_def Math_random_def Let_def)

lemma calls_loadKeys: "calls (loadKeys rnd cfg s) = calls s"
  by (simp add: loadKeys_def Math_random_def Let_def)

lemma loadKeys_empty: "configuredKeys cfg = [] \<Longrightarrow> loadKeys rnd cfg s = s\<lparr>keys := []\<rparr>"
  by (simp add: loadKeys_def Let_def)

lemma loadKeys_initialized:
  "initialized s \<Longrightarrow> loadKeys rnd cfg s =
     (if configuredKeys cfg \<noteq> [] \<and> currentIndex s \<ge> int (length (configuredKeys cfg))
      then s\<lparr>keys := configuredKeys cfg, currentIndex := 0\<rparr> else s\<lparr>keys := configuredKeys cfg\<rparr>)"
  by (simp add: loadKeys_def Let_def)

lemma floor_random_index:
  assumes "0 \<le> r" "r < 1" "0 < n"
  shows "0 \<le> \<lfloor>r * real n\<rfloor> \<and> \<lfloor>r * real n\<rfloor> < int n"
proof -
  have "0 \<le> r * real n" using assms by simp
  moreover have "r * real n < real n" using assms by simp
  ultimately show ?thesis by (simp add: floor_less_iff)
qed

lemma nonneg_loadKeys:
  assumes "0 \<le> rnd (draws s)" "0 \<le> currentIndex s"
  shows "0 \<le> currentIndex (loadKeys rnd cfg s)"
  using assms by (auto simp: loadKeys_def Math_random_def Let_def)

lemma indexInBounds_loadKeys:
  assumes "0 \<le> rnd (draws s)" "rnd (draws s) < 1" "0 \<le> currentIndex s"
  shows "indexInBounds (loadKeys rnd cfg s)"
  using floor_random_index [OF assms(1,2), of "length (configuredKeys cfg)"] assms(3)
  by (auto simp: loadKeys_def indexInBounds_def Math_random_def Let_def)

lemma loadKeys_idem:
  assumes "0 \<le> rnd (draws s)" "rnd (draws s) < 1"
  shows "loadKeys rnd cfg (loadKeys rnd cfg s) = loadKeys rnd cfg s"
  using floor_random_index [OF assms, of "length (configuredKeys cfg)"]
  by (auto simp: loadKeys_def Math_random_def Let_def)

lemma smod_nonneg: "0 \<le> (a::int) \<Longrightarrow> 0 < b \<Longrightarrow> a smod b = a mod b"
  by (simp add: smod_int_alt_def sgn_if)

lemma rotate_eq:
  assumes "0 \<le> currentIndex s"
  shows "rotate_key s =
     (2 \<le> length (keys s),
      if 2 \<le> length (keys s) then s\<lparr>currentIndex := (currentIndex s + 1) mod int (length (keys s))\<rparr> else s)"
proof (cases "2 \<le> length (keys s)")
  case True
  have "(currentIndex s + 1) smod int (length (keys s)) = (currentIndex s + 1) mod int (length (keys s))"
    using assms True by (intro smod_nonneg) auto
  then show ?thesis using True by (simp add: rotate_key_def)
next
  case False
  then show ?thesis by (simp add: rotate_key_def)
qed

lemma indexInBounds_rotate:
  "0 \<le> currentIndex s \<Longrightarrow> indexInBounds s \<Longrightarrow> indexInBounds (snd (rotate_key s))"
  by (auto simp: rotate_eq indexInBounds_def)

lemma nonneg_rotate:
  assumes "0 \<le> currentIndex s"
  shows "0 \<le> currentIndex (snd (rotate_key s))"
proof (cases "2 \<le> length (keys s)")
  case True
  then have "0 < int (length (keys s))" by auto
  then have "0 \<le> (currentIndex s + 1) mod int (length (keys s))" by (rule pos_mod_sign)
  then show ?thesis using assms True by (simp add: rotate_eq)
next
  case False
  then show ?thesis using assms by (simp add: rotate_eq)
qed

lemma snd_getCurrentKey: "snd (getCurrentKey rnd cfg s) = loadKeys rnd cfg s"
  by (simp add: getCurrentKey_def Let_def)

lemma draws_applyPoolOp:
  "draws s \<le> draws (applyPoolOp rnd s op)"
  by (cases op) (auto simp: snd_getCurrentKey loadKeys_def Math_random_def rotate_key_def Let_def)

lemma invariant_applyPoolOp:
  assumes "unitInterval rnd" "0 \<le> currentIndex s" "indexInBounds s"
  shows "0 \<le> currentIndex (applyPoolOp rnd s op) \<and> indexInBounds (applyPoolOp rnd s op)"
proof (cases op)
  case (LoadKeys cfg)
  then show ?thesis
    using assms nonneg_loadKeys [of rnd s cfg] indexInBounds_loadKeys [of rnd s cfg]
    by (simp add: unitInterval_def)
next
  case (GetCurrentKey cfg)
  then show ?thesis
    using assms nonneg_loadKeys [of rnd s cfg] indexInBounds_loadKeys [of rnd s cfg]
    by (simp add: unitInterval_def snd_getCurrentKey)
next
  case Rotate
  then show ?thesis
    using assms by (simp add: nonneg_rotate indexInBounds_rotate)
qed

lemma invariant_applyPoolOps:
  assumes "unitInterval rnd"
  shows "0 \<le> currentIndex s \<Longrightarrow> indexInBounds s \<Longrightarrow>
         0 \<le> currentIndex (applyPoolOps rnd s ops) \<and> indexInBounds (applyPoolOps rnd s ops)"
  unfolding applyPoolOps_def
proof (induction ops arbitrary: s)
  case Nil
  then show ?case by simp
next
  case (Cons op ops)
  have "0 \<le> currentIndex (applyPoolOp rnd s op) \<and> indexInBounds (applyPoolOp rnd s op)"
    using invariant_applyPoolOp [OF assms Cons.prems] .
  then show ?case using Cons.IH by simp
qed


lemma draws_step:
  "(initialized s \<longrightarrow> initialized (applyPoolOp rnd s op) \<and> draws (applyPoolOp rnd s op) = draws s) \<and>
   (\<not> initialized s \<longrightarrow>
      (\<not> initialized (applyPoolOp rnd s op) \<and> draws (applyPoolOp rnd s op) = draws s) \<or>
      (initialized (applyPoolOp rnd s op) \<and> draws (applyPoolOp rnd s op) = Suc (draws s)))"
  by (cases op) (auto simp: snd_getCurrentKey loadKeys_def Math_random_def rotate_key_def Let_def)

lemma draws_applyPoolOps:
  "draws (applyPoolOps rnd s ops) \<le> draws s + (if initialized s then 0 else 1)"
  unfolding applyPoolOps_def
proof (induction ops arbitrary: s)
  case Nil
  then show ?case by simp
next
  case (Cons op ops)
  show ?case
    using Cons.IH [of "applyPoolOp rnd s op"] draws_step [of s rnd op]
    by (auto split: if_splits)
qed

lemma unitInterval_rndFixed: "unitInterval rndFixed"
  by (simp add: unitInterval_def rndFixed_def)

lemma configuredKeys_storageAB: "configuredKeys storageAB = [''A'', ''B'']"
  by (simp add: configuredKeys_def storageAB_def parseStoredKeys_def trimIsEmpty_def isWhiteSpace_def truthy_def)

lemma configuredKeys_storageK: "configuredKeys storageK = [''K'']"
  by (simp add: configuredKeys_def storageK_def truthy_def)

lemma configuredKeys_storageNone: "configuredKeys storageNone = []"
  by (simp add: configuredKeys_def storageNone_def parseStoredKeys_def truthy_def)

section \<open>The credential pool\<close>

text \<open>
  C7.  Reloading is idempotent: with the configuration storage unchanged, a second
  \<open>loadKeys\<close> right after the first changes nothing, so \<open>currentIndex\<close> keeps the value the
  first call gave it.  Once \<open>initialized\<close> is set, a reload draws no Math_random number and leaves
  the flag set; over any sequence of pool operations of a process, starting from the initial
  key manager, at most one Math_random number is drawn.
\<close>

theorem reload_idempotent_randomizes_once:
  assumes "unitInterval rnd"
  shows "loadKeys rnd cfg (loadKeys rnd cfg s) = loadKeys rnd cfg s \<and>
         currentIndex (loadKeys rnd cfg (loadKeys rnd cfg s)) = currentIndex (loadKeys rnd cfg s) \<and>
         (initialized s \<longrightarrow>
            initialized (loadKeys rnd cfg s) \<and> draws (loadKeys rnd cfg s) = draws s) \<and>
         draws (applyPoolOps rnd initialState ops) \<le> 1"
proof -
  have idem: "loadKeys rnd cfg (loadKeys rnd cfg s) = loadKeys rnd cfg s"
    using assms by (intro loadKeys_idem) (simp_all add: unitInterval_def)
  have later: "initialized s \<longrightarrow>
            initialized (loadKeys rnd cfg s) \<and> draws (loadKeys rnd cfg s) = draws s"
    by (simp add: loadKeys_initialized)
  have once: "draws (applyPoolOps rnd initialState ops) \<le> 1"
    using draws_applyPoolOps [of rnd initialState ops] by (simp add: initialState_def)
  show ?thesis using idem later once by simp
qed

theorem reload_idempotent_randomizes_once_witness:
  "unitInterval rndFixed \<and>
   loadKeys rndFixed storageAB (loadKeys rndFixed storageAB initialState) = loadKeys rndFixed storageAB initialState \<and>
   currentIndex (loadKeys rndFixed storageAB (loadKeys rndFixed storageAB initialState)) = 1 \<and>
   initialized (loadKeys rndFixed storageAB initialState) \<and>
   draws (loadKeys rndFixed storageK (loadKeys rndFixed storageAB initialState)) = 1 \<and>
   draws (applyPoolOps rndFixed initialState [LoadKeys storageAB, Rotate, LoadKeys storageK, GetCurrentKey storageAB]) \<le> 1"
proof -
  have init: "initialized (loadKeys rndFixed storageAB initialState)"
    by (simp add: loadKeys_def configuredKeys_storageAB initialState_def Math_random_def)
  have idx: "currentIndex (loadKeys rndFixed storageAB initialState) = 1"
    by (simp add: loadKeys_def configuredKeys_storageAB initialState_def Math_random_def rndFixed_def)
  have d: "draws (loadKeys rndFixed storageAB initialState) = 1"
    by (simp add: loadKeys_def configuredKeys_storageAB initialState_def Math_random_def rndFixed_def)
  show ?thesis
    using reload_idempotent_randomizes_once [OF unitInterval_rndFixed, of storageAB initialState
        "[LoadKeys storageAB, Rotate, LoadKeys storageK, GetCurrentKey storageAB]"]
      reload_idempotent_randomizes_once [OF unitInterval_rndFixed, of storageK "loadKeys rndFixed storageAB initialState" "[]"]
      init idx d unitInterval_rndFixed
    by simp
qed

text \<open>
  C9.  In every state the pool operations reach from the initial key manager, a non-empty
  key list has \<open>0 \<le> currentIndex < length keys\<close>.  There \<open>rotate_key\<close> answers whether the pool
  holds at least two keys; if so it moves \<open>currentIndex\<close> to
  \<open>(currentIndex + 1) mod length keys\<close>, and otherwise it changes nothing.
\<close>

theorem pool_index_in_bounds_and_rotate:
  assumes "unitInterval rnd"
  shows "(let s = applyPoolOps rnd initialState ops
          in indexInBounds s \<and>
             rotate_key s =
               (2 \<le> length (keys s),
                if 2 \<le> length (keys s)
                then s\<lparr>currentIndex := (currentIndex s + 1) mod int (length (keys s))\<rparr> else s))"
proof -
  define s where "s = applyPoolOps rnd initialState ops"
  have inv: "0 \<le> currentIndex s \<and> indexInBounds s"
    unfolding s_def
    by (rule invariant_applyPoolOps [OF assms]) (simp_all add: initialState_def indexInBounds_def)
  then show ?thesis
    unfolding Let_def s_def [symmetric] using rotate_eq [of s] by simp
qed

theorem pool_index_in_bounds_and_rotate_witness:
  "unitInterval rndFixed \<and>
   keys (applyPoolOps rndFixed initialState [LoadKeys storageAB, Rotate]) = [''A'', ''B''] \<and>
   currentIndex (applyPoolOps rndFixed initialState [LoadKeys storageAB, Rotate]) = 0 \<and>
   indexInBounds (applyPoolOps rndFixed initialState [LoadKeys storageAB, Rotate]) \<and>
   fst (rotate_key (applyPoolOps rndFixed initialState [LoadKeys storageAB, Rotate])) \<and>
   currentIndex (snd (rotate_key (applyPoolOps rndFixed initialState [LoadKeys storageAB, Rotate]))) = 1"
proof -
  have k: "keys (applyPoolOps rndFixed initialState [LoadKeys storageAB, Rotate]) = [''A'', ''B'']"
    by (simp add: applyPoolOps_def loadKeys_def configuredKeys_storageAB initialState_def Math_random_def rotate_key_def)
  have i: "currentIndex (applyPoolOps rndFixed initialState [LoadKeys storageAB, Rotate]) = 0"
    by (simp add: applyPoolOps_def loadKeys_def configuredKeys_storageAB initialState_def Math_random_def
        rotate_key_def rndFixed_def smod_int_alt_def)
  show ?thesis
    using pool_index_in_bounds_and_rotate [OF unitInterval_rndFixed, of "[LoadKeys storageAB, Rotate]"] k i
      unitInterval_rndFixed
    by (simp add: Let_def)
qed


lemma keyNotFound_not_rotation:
  "\<not> isRotationTrigger (Error ''Gemini API key not found. Please add keys in the settings modal (gear icon).'')"
  by (simp add: isRotationTrigger_def lowerMessageOrString_def toLowerCase_def toLowerChar_def
      includesStr_def sublist_code)

text \<open>
  C6.  When the pool is empty after the reload, \<open>getCurrentKey\<close> fails with the error
  "Gemini API key not found. Please add keys in the settings modal (gear icon).", which
  names the missing key, and \<open>executeWithKeyRotation\<close> ends with that same error for any
  operation: the operation is never run, no request is counted and the trace is unchanged.
\<close>

theorem empty_pool_configuration_error:
  assumes "keys (loadKeys rnd cfg s) = []"
  shows "getCurrentKey rnd cfg s =
           (Inl (Error ''Gemini API key not found. Please add keys in the settings modal (gear icon).''),
            s\<lparr>keys := []\<rparr>) \<and>
         includesStr ''Gemini API key not found. Please add keys in the settings modal (gear icon).''
           ''API key not found'' \<and>
         executeWithKeyRotation rnd cfg operation modelName s =
           (Inl (Error ''Gemini API key not found. Please add keys in the settings modal (gear icon).''),
            s\<lparr>keys := []\<rparr>) \<and>
         calls (s\<lparr>keys := []\<rparr>) = calls s \<and> trace (s\<lparr>keys := []\<rparr>) = trace s"
proof -
  have empty: "configuredKeys cfg = []"
    using assms by (simp add: keys_loadKeys)
  have load: "loadKeys rnd cfg s' = s'\<lparr>keys := []\<rparr>" for s'
    using empty by (rule loadKeys_empty)
  have cur: "getCurrentKey rnd cfg s' =
           (Inl (Error ''Gemini API key not found. Please add keys in the settings modal (gear icon).''),
            s'\<lparr>keys := []\<rparr>)" for s'
    by (simp add: getCurrentKey_def load)
  have names: "includesStr ''Gemini API key not found. Please add keys in the settings modal (gear icon).''
           ''API key not found''"
    by (simp add: includesStr_def sublist_code)
  have attempt: "tryAttempt rnd cfg operation (s\<lparr>keys := []\<rparr>) =
           (Inl (Error ''Gemini API key not found. Please add keys in the settings modal (gear icon).''),
            s\<lparr>keys := []\<rparr>)"
    by (simp add: tryAttempt_def getAiClient_def cur)
  have loop: "executeWithKeyRotation_loop rnd cfg operation (Suc 0) 0 (s\<lparr>keys := []\<rparr>) =
           (Inl (Error ''Gemini API key not found. Please add keys in the settings modal (gear icon).''),
            s\<lparr>keys := []\<rparr>)"
    by (subst executeWithKeyRotation_loop.simps) (simp add: attempt keyNotFound_not_rotation)
  have exec: "executeWithKeyRotation rnd cfg operation modelName s =
           (Inl (Error ''Gemini API key not found. Please add keys in the settings modal (gear icon).''),
            s\<lparr>keys := []\<rparr>)"
    by (simp add: executeWithKeyRotation_def load maxAttemptsOf_def loop)
  show ?thesis using cur names exec by simp
qed

theorem empty_pool_configuration_error_witness:
  "keys (loadKeys rndFixed storageNone initialState) = [] \<and>
   executeWithKeyRotation rndFixed storageNone (generateContent netOk proRequest) ''gemini-2.5-pro'' initialState =
     (Inl (Error ''Gemini API key not found. Please add keys in the settings modal (gear icon).''),
      initialState)"
proof -
  have h: "keys (loadKeys rndFixed storageNone initialState) = []"
    by (simp add: keys_loadKeys configuredKeys_storageNone)
  have same: "initialState\<lparr>keys := []\<rparr> = initialState"
    by (simp add: initialState_def)
  show ?thesis
    using h empty_pool_configuration_error [OF h, of "generateContent netOk proRequest" "''gemini-2.5-pro''"]
    by (simp add: same)
qed

section \<open>The model invocation layer: unsupported models\<close>

text \<open>
  C10.  For a model name that does not start with "gemini-", \<open>callModel\<close> fails at once with
  "Unsupported model: " followed by the name, and returns the state as it received it: no
  request, no wait, no reload and no rotation.
\<close>

theorem unsupported_model_rejected:
  assumes "\<not> startsWith m ''gemini-''"
  shows "callModel rnd cfg net m systemInstr userPrompt config s =
           (Inl (Error (''Unsupported model: '' @ m)), s)"
  using assms by (simp add: callModel_def)

theorem unsupported_model_rejected_witness:
  "\<not> startsWith ''gpt-4o'' ''gemini-'' \<and>
   callModel rndFixed storageAB netOk ''gpt-4o'' ''system'' ''prompt'' plainConfig initialState =
     (Inl (Error ''Unsupported model: gpt-4o''), initialState)"
proof -
  have h: "\<not> startsWith ''gpt-4o'' ''gemini-''"
    by (simp add: startsWith_def)
  show ?thesis
    using h unsupported_model_rejected [OF h, of rndFixed storageAB netOk "''system''" "''prompt''" plainConfig initialState]
    by simp
qed


section \<open>Effects of the two loops\<close>

lemma requestsOf_append: "requestsOf (xs @ ys) = requestsOf xs @ requestsOf ys"
  by (induction xs rule: requestsOf.induct) simp_all

lemma outerAttempts_append: "outerAttempts (xs @ ys) = outerAttempts xs + outerAttempts ys"
  by (simp add: outerAttempts_def)

text \<open>What the inner loop leaves behind, whatever the backend answers.\<close>

lemma inner_loop_effects:
  assumes "Suc MAX_RETRIES - attempt = n"
    and "withRateLimitHandling_loop rnd (generateContent net req c) attempt s = (res, s')"
  shows "keys s' = keys s \<and> currentIndex s' = currentIndex s \<and> initialized s' = initialized s \<and>
         (\<exists>evs. trace s' = trace s @ evs \<and> outerAttempts evs = 0 \<and> set (requestsOf evs) \<subseteq> {req})"
  using assms
proof (induction n arbitrary: attempt s)
  case 0
  then have "\<not> attempt \<le> MAX_RETRIES" by simp
  then have "s' = s"
    using "0.prems"(2) by (subst (asm) withRateLimitHandling_loop.simps) simp
  then show ?case by (simp add: outerAttempts_def)
next
  case (Suc n)
  let ?s1 = "s\<lparr>calls := Suc (calls s), trace := trace s @ [Invoke c req]\<rparr>"
  let ?s2 = "\<lambda>w. delay w (?s1\<lparr>draws := Suc (draws ?s1)\<rparr>)"
  have le: "attempt \<le> MAX_RETRIES" using Suc.prems(1) by simp
  have next_n: "Suc MAX_RETRIES - (attempt + 1) = n" using Suc.prems(1) by simp
  have one: "outerAttempts [Invoke c req] = 0" "requestsOf [Invoke c req] = [req]"
    by (simp_all add: outerAttempts_def)
  consider (stop) "s' = ?s1"
    | (again) w where "withRateLimitHandling_loop rnd (generateContent net req c) (attempt + 1) (?s2 w) = (res, s')"
    using Suc.prems(2) le
    by (subst (asm) withRateLimitHandling_loop.simps)
       (auto simp: generateContent_def Math_random_def Let_def split: sum.splits if_splits)
  then show ?case
  proof cases
    case stop
    then show ?thesis using one by simp
  next
    case again
    from Suc.IH [OF next_n again]
    obtain evs where evs: "keys s' = keys s" "currentIndex s' = currentIndex s" "initialized s' = initialized s"
      "trace s' = (trace s @ [Invoke c req, Sleep w]) @ evs" "outerAttempts evs = 0" "set (requestsOf evs) \<subseteq> {req}"
      by (auto simp: delay_def)
    have "trace s' = trace s @ ([Invoke c req, Sleep w] @ evs)" using evs(4) by simp
    moreover have "outerAttempts ([Invoke c req, Sleep w] @ evs) = 0"
      using evs(5) by (simp add: outerAttempts_def)
    moreover have "set (requestsOf ([Invoke c req, Sleep w] @ evs)) \<subseteq> {req}"
      using evs(6) by (simp add: requestsOf_append)
    ultimately show ?thesis using evs(1-3) by blast
  qed
qed


lemma tryAttempt_effects:
  assumes "tryAttempt rnd cfg (generateContent net req) s = (res, s1)"
  shows "keys s1 = configuredKeys cfg \<and>
         (\<exists>evs. trace s1 = trace s @ evs \<and> outerAttempts evs \<le> 1 \<and> set (requestsOf evs) \<subseteq> {req})"
proof (cases "getCurrentKey rnd cfg s")
  case (Pair r s0)
  have s0: "s0 = loadKeys rnd cfg s"
    using Pair snd_getCurrentKey [of rnd cfg s] by simp
  show ?thesis
  proof (cases r)
    case (Inl error)
    then have "s1 = s0"
      using assms Pair by (simp add: tryAttempt_def getAiClient_def)
    then show ?thesis
      by (simp add: s0 keys_loadKeys trace_loadKeys outerAttempts_def)
  next
    case (Inr client)
    let ?s = "s0\<lparr>trace := trace s0 @ [NewClient client]\<rparr>"
    have run: "withRateLimitHandling_loop rnd (generateContent net req client) 1 ?s = (res, s1)"
      using assms Pair Inr by (simp add: tryAttempt_def getAiClient_def withRateLimitHandling_def)
    from inner_loop_effects [OF refl run]
    obtain evs where evs: "keys s1 = keys ?s" "trace s1 = trace ?s @ evs" "outerAttempts evs = 0"
      "set (requestsOf evs) \<subseteq> {req}"
      by auto
    have "trace s1 = trace s @ ([NewClient client] @ evs)"
      using evs(2) by (simp add: s0 trace_loadKeys)
    moreover have "outerAttempts ([NewClient client] @ evs) \<le> 1"
      using evs(3) by (simp add: outerAttempts_def)
    moreover have "set (requestsOf ([NewClient client] @ evs)) \<subseteq> {req}"
      using evs(4) by simp
    ultimately show ?thesis
      using evs(1) by (auto simp: s0 keys_loadKeys simp del: append.simps)
  qed
qed

lemma outer_loop_effects:
  assumes "maxAttempts - attempt = n"
    and "executeWithKeyRotation_loop rnd cfg (generateContent net req) maxAttempts attempt s = (res, s')"
  shows "\<exists>evs. trace s' = trace s @ evs \<and> set (requestsOf evs) \<subseteq> {req}"
  using assms
proof (induction n arbitrary: attempt s)
  case 0
  then have "\<not> attempt < maxAttempts" by simp
  then have "s' = s"
    using "0.prems"(2) by (subst (asm) executeWithKeyRotation_loop.simps) simp
  then show ?case by simp
next
  case (Suc n)
  obtain r s1 where try1: "tryAttempt rnd cfg (generateContent net req) s = (r, s1)"
    by (cases "tryAttempt rnd cfg (generateContent net req) s")
  from tryAttempt_effects [OF try1]
  obtain evs1 where evs1: "trace s1 = trace s @ evs1" "set (requestsOf evs1) \<subseteq> {req}"
    by auto
  have lt: "attempt < maxAttempts" using Suc.prems(1) by simp
  have next_n: "maxAttempts - (attempt + 1) = n" using Suc.prems(1) by simp
  consider (stop) "s' = s1"
    | (again) "executeWithKeyRotation_loop rnd cfg (generateContent net req) maxAttempts (attempt + 1)
                 (delay 10000 (snd (rotate_key s1))) = (res, s')"
    using Suc.prems(2) lt try1
    by (subst (asm) executeWithKeyRotation_loop.simps)
       (auto simp: Let_def split: sum.splits if_splits)
  then show ?case
  proof cases
    case stop
    then show ?thesis using evs1 by blast
  next
    case again
    from Suc.IH [OF next_n again]
    obtain evs where evs: "trace s' = trace (delay 10000 (snd (rotate_key s1))) @ evs"
      "set (requestsOf evs) \<subseteq> {req}"
      by auto
    have "trace (delay 10000 (snd (rotate_key s1))) = trace s1 @ [Sleep 10000]"
      by (simp add: delay_def rotate_key_def)
    then have "trace s' = trace s @ (evs1 @ [Sleep 10000] @ evs)"
      using evs(1) evs1(1) by simp
    moreover have "set (requestsOf (evs1 @ [Sleep 10000] @ evs)) \<subseteq> {req}"
      using evs(2) evs1(2) by (simp add: requestsOf_append)
    ultimately show ?thesis by blast
  qed
qed

lemma executeWithKeyRotation_effects:
  assumes "executeWithKeyRotation rnd cfg (generateContent net req) modelName s = (res, s')"
  shows "\<exists>evs. trace s' = trace s @ evs \<and> set (requestsOf evs) \<subseteq> {req}"
  using outer_loop_effects [OF refl, of rnd cfg net req _ 0 "loadKeys rnd cfg s" res s'] assms
  by (simp add: executeWithKeyRotation_def Let_def trace_loadKeys)

section \<open>The model invocation layer: fallback model\<close>

text \<open>
  C8.  When the run of the call executor for the model "gemini-2.5-flash" ends with an error
  that \<open>callModel\<close> classifies as quota exhaustion, \<open>callModel\<close> runs the call executor once
  more, from the state the failed run left, with the request rebuilt for "gemini-2.0-flash",
  and returns whatever that run returns (its result if it succeeds, its error if not); every
  request sent from then on names the fallback model.  For any other model starting with
  "gemini-", an error of the call executor is returned as it is.
\<close>

theorem flash_fallback_once:
  "(\<forall>error s1.
      executeWithKeyRotation rnd cfg
        (generateContent net (buildRequest ''gemini-2.5-flash'' systemInstr userPrompt config))
        ''gemini-2.5-flash'' s = (Inl error, s1) \<and> isQuotaExhausted error \<longrightarrow>
      callModel rnd cfg net ''gemini-2.5-flash'' systemInstr userPrompt config s =
        executeWithKeyRotation rnd cfg
          (generateContent net (buildRequest ''gemini-2.0-flash'' systemInstr userPrompt config))
          ''gemini-2.0-flash'' s1 \<and>
      (\<forall>res s2. callModel rnd cfg net ''gemini-2.5-flash'' systemInstr userPrompt config s = (res, s2) \<longrightarrow>
         (\<exists>evs. trace s2 = trace s1 @ evs \<and>
                set (requestsOf evs) \<subseteq> {buildRequest ''gemini-2.0-flash'' systemInstr userPrompt config}))) \<and>
   (\<forall>m error s1.
      m \<noteq> ''gemini-2.5-flash'' \<and> startsWith m ''gemini-'' \<and>
      executeWithKeyRotation rnd cfg
        (generateContent net (buildRequest m systemInstr userPrompt config)) m s = (Inl error, s1) \<longrightarrow>
      callModel rnd cfg net m systemInstr userPrompt config s = (Inl error, s1))"
proof -
  have flash: "startsWith ''gemini-2.5-flash'' ''gemini-''"
    by (simp add: startsWith_def)
  show ?thesis
  proof (intro conjI allI impI)
    fix error s1
    assume h: "executeWithKeyRotation rnd cfg
        (generateContent net (buildRequest ''gemini-2.5-flash'' systemInstr userPrompt config))
        ''gemini-2.5-flash'' s = (Inl error, s1) \<and> isQuotaExhausted error"
    then show call: "callModel rnd cfg net ''gemini-2.5-flash'' systemInstr userPrompt config s =
        executeWithKeyRotation rnd cfg
          (generateContent net (buildRequest ''gemini-2.0-flash'' systemInstr userPrompt config))
          ''gemini-2.0-flash'' s1"
      using flash by (simp add: callModel_def Let_def)
    fix res s2
    assume "callModel rnd cfg net ''gemini-2.5-flash'' systemInstr userPrompt config s = (res, s2)"
    then have "executeWithKeyRotation rnd cfg
          (generateContent net (buildRequest ''gemini-2.0-flash'' systemInstr userPrompt config))
          ''gemini-2.0-flash'' s1 = (res, s2)"
      using call by simp
    then show "\<exists>evs. trace s2 = trace s1 @ evs \<and>
                set (requestsOf evs) \<subseteq> {buildRequest ''gemini-2.0-flash'' systemInstr userPrompt config}"
      by (rule executeWithKeyRotation_effects)
  next
    fix m error s1
    assume "m \<noteq> ''gemini-2.5-flash'' \<and> startsWith m ''gemini-'' \<and>
      executeWithKeyRotation rnd cfg
        (generateContent net (buildRequest m systemInstr userPrompt config)) m s = (Inl error, s1)"
    then show "callModel rnd cfg net m systemInstr userPrompt config s = (Inl error, s1)"
      by (simp add: callModel_def)
  qed
qed

lemma flash_run:
  "executeWithKeyRotation rndFixed storageK
        (generateContent netFlashRateLimited (buildRequest ''gemini-2.5-flash'' ''system'' ''prompt'' plainConfig))
        ''gemini-2.5-flash'' initialState =
   (Inl (Error ''All Gemini API Keys exhausted (Quota/Suspended). Last error: quota exceeded or key suspended: 429 too many requests''),
    snd (executeWithKeyRotation rndFixed storageK
        (generateContent netFlashRateLimited (buildRequest ''gemini-2.5-flash'' ''system'' ''prompt'' plainConfig))
        ''gemini-2.5-flash'' initialState))"
  by code_simp

lemma flash_run_quota:
  "isQuotaExhausted (Error ''All Gemini API Keys exhausted (Quota/Suspended). Last error: quota exceeded or key suspended: 429 too many requests'')"
  by code_simp

lemma fallback_run:
  "fst (executeWithKeyRotation rndFixed storageK
        (generateContent netFlashRateLimited (buildRequest ''gemini-2.0-flash'' ''system'' ''prompt'' plainConfig))
        ''gemini-2.0-flash''
        (snd (executeWithKeyRotation rndFixed storageK
           (generateContent netFlashRateLimited (buildRequest ''gemini-2.5-flash'' ''system'' ''prompt'' plainConfig))
           ''gemini-2.5-flash'' initialState))) = Inr ''text''"
  by code_simp

lemma pro_run:
  "executeWithKeyRotation rndFixed storageAB
        (generateContent netRateLimited (buildRequest ''gemini-2.5-pro'' ''system'' ''prompt'' plainConfig))
        ''gemini-2.5-pro'' initialState =
   (Inl (Error ''All Gemini API Keys exhausted (Rotation loop ended without success).''),
    snd (executeWithKeyRotation rndFixed storageAB
        (generateContent netRateLimited (buildRequest ''gemini-2.5-pro'' ''system'' ''prompt'' plainConfig))
        ''gemini-2.5-pro'' initialState))"
  by code_simp

theorem flash_fallback_once_witness:
  "executeWithKeyRotation rndFixed storageK
        (generateContent netFlashRateLimited (buildRequest ''gemini-2.5-flash'' ''system'' ''prompt'' plainConfig))
        ''gemini-2.5-flash'' initialState =
   (Inl (Error ''All Gemini API Keys exhausted (Quota/Suspended). Last error: quota exceeded or key suspended: 429 too many requests''),
    snd (executeWithKeyRotation rndFixed storageK
        (generateContent netFlashRateLimited (buildRequest ''gemini-2.5-flash'' ''system'' ''prompt'' plainConfig))
        ''gemini-2.5-flash'' initialState)) \<and>
   isQuotaExhausted (Error ''All Gemini API Keys exhausted (Quota/Suspended). Last error: quota exceeded or key suspended: 429 too many requests'') \<and>
   fst (callModel rndFixed storageK netFlashRateLimited ''gemini-2.5-flash'' ''system'' ''prompt'' plainConfig
          initialState) = Inr ''text'' \<and>
   ''gemini-2.5-pro'' \<noteq> ''gemini-2.5-flash'' \<and> startsWith ''gemini-2.5-pro'' ''gemini-'' \<and>
   callModel rndFixed storageAB netRateLimited ''gemini-2.5-pro'' ''system'' ''prompt'' plainConfig initialState =
     (Inl (Error ''All Gemini API Keys exhausted (Rotation loop ended without success).''),
      snd (executeWithKeyRotation rndFixed storageAB
        (generateContent netRateLimited (buildRequest ''gemini-2.5-pro'' ''system'' ''prompt'' plainConfig))
        ''gemini-2.5-pro'' initialState))"
proof -
  have ne: "''gemini-2.5-pro'' \<noteq> ''gemini-2.5-flash''"
    by simp
  have pre: "startsWith ''gemini-2.5-pro'' ''gemini-''"
    by (simp add: startsWith_def)
  have a: "callModel rndFixed storageK netFlashRateLimited ''gemini-2.5-flash'' ''system'' ''prompt'' plainConfig
          initialState =
        executeWithKeyRotation rndFixed storageK
          (generateContent netFlashRateLimited (buildRequest ''gemini-2.0-flash'' ''system'' ''prompt'' plainConfig))
          ''gemini-2.0-flash''
          (snd (executeWithKeyRotation rndFixed storageK
             (generateContent netFlashRateLimited (buildRequest ''gemini-2.5-flash'' ''system'' ''prompt'' plainConfig))
             ''gemini-2.5-flash'' initialState))"
    using flash_fallback_once [of rndFixed storageK netFlashRateLimited "''system''" "''prompt''" plainConfig
        initialState, THEN conjunct1, THEN spec, THEN spec, THEN mp,
        OF conjI [OF flash_run flash_run_quota], THEN conjunct1] .
  have c: "fst (callModel rndFixed storageK netFlashRateLimited ''gemini-2.5-flash'' ''system'' ''prompt'' plainConfig
          initialState) = Inr ''text''"
    unfolding a by (rule fallback_run)
  have b: "callModel rndFixed storageAB netRateLimited ''gemini-2.5-pro'' ''system'' ''prompt'' plainConfig initialState =
     (Inl (Error ''All Gemini API Keys exhausted (Rotation loop ended without success).''),
      snd (executeWithKeyRotation rndFixed storageAB
        (generateContent netRateLimited (buildRequest ''gemini-2.5-pro'' ''system'' ''prompt'' plainConfig))
        ''gemini-2.5-pro'' initialState))"
    using flash_fallback_once [of rndFixed storageAB netRateLimited "''system''" "''prompt''" plainConfig
        initialState, THEN conjunct2, THEN spec, THEN spec, THEN spec, THEN mp,
        OF conjI [OF ne conjI [OF pre pro_run]]] .
  show ?thesis
    by (intro conjI flash_run flash_run_quota c ne pre b)
qed

section \<open>One step of each loop after a failure\<close>

lemma toLowerCase_append: "toLowerCase (a @ b) = toLowerCase a @ toLowerCase b"
  by (simp add: toLowerCase_def)

lemma wrapped_hard_quota_rotation:
  "isRotationTrigger (Error (''API Quota Exceeded (Limit: 0) or Model Unavailable: '' @ x))"
proof -
  have "includesStr (toLowerCase ''API Quota Exceeded (Limit: 0) or Model Unavailable: '') ''quota''"
    by code_simp
  then have "includesStr (toLowerCase (''API Quota Exceeded (Limit: 0) or Model Unavailable: '' @ x)) ''quota''"
    unfolding toLowerCase_append by (rule includesStr_append)
  then show ?thesis
    by (simp add: isRotationTrigger_def lowerMessageOrString_def)
qed

lemma wrapped_suspended_rotation:
  "isRotationTrigger (Error (''Quota Exceeded or Key Suspended: '' @ x))"
proof -
  have "includesStr (toLowerCase ''Quota Exceeded or Key Suspended: '') ''quota''"
    by code_simp
  then have "includesStr (toLowerCase (''Quota Exceeded or Key Suspended: '' @ x)) ''quota''"
    unfolding toLowerCase_append by (rule includesStr_append)
  then show ?thesis
    by (simp add: isRotationTrigger_def lowerMessageOrString_def)
qed

lemma inner_loop_on_failure:
  assumes "attempt \<le> MAX_RETRIES" and "apiCall s = (Inl error, s1)"
  shows "withRateLimitHandling_loop rnd apiCall attempt s =
     (if isHardQuotaZero error then
        (Inl (Error (''API Quota Exceeded (Limit: 0) or Model Unavailable: '' @ lowerMessageOrEmpty error)), s1)
      else if isRotationTrigger error \<and> 1 < length (keys s1) then (Inl error, s1)
      else if attempt = MAX_RETRIES then
        (if isRotationTrigger error then
           (Inl (Error (''Quota Exceeded or Key Suspended: '' @ lowerMessageOrEmpty error)), s1)
         else (Inl error, s1))
      else withRateLimitHandling_loop rnd apiCall (attempt + 1)
             (delay (backoffTime (isRotationTrigger error) attempt (rnd (draws s1)))
                (s1\<lparr>draws := Suc (draws s1)\<rparr>)))"
  using assms
  by (subst withRateLimitHandling_loop.simps) (simp add: Let_def Math_random_def del: append.simps)

lemma outer_loop_on_failure:
  assumes "attempt < maxAttempts" and "tryAttempt rnd cfg operation s = (Inl error, s1)"
  shows "executeWithKeyRotation_loop rnd cfg operation maxAttempts attempt s =
     (if isRotationTrigger error \<and> 1 < length (keys s1) then
        executeWithKeyRotation_loop rnd cfg operation maxAttempts (attempt + 1)
          (delay 10000 (snd (rotate_key s1)))
      else if attempt = maxAttempts - 1 then
        (if isRotationTrigger error then
           (Inl (Error (''All Gemini API Keys exhausted (Quota/Suspended). Last error: '' @
                          lowerMessageOrEmpty error)), s1)
         else (Inl error, s1))
      else (Inl error, s1))"
  using assms
  by (subst executeWithKeyRotation_loop.simps) (simp add: Let_def del: append.simps)

section \<open>A rotation trigger on every credential\<close>






lemma rateLimited_rotation: "isRotationTrigger (Error ''429 Too Many Requests'')"
  by code_simp

lemma rateLimited_not_hard: "\<not> isHardQuotaZero (Error ''429 Too Many Requests'')"
  by code_simp



section \<open>A rotation trigger with a single credential\<close>

lemma single_key_inner:
  assumes "alwaysFails (\<lambda>e. isRotationTrigger e \<and> \<not> isHardQuotaZero e) net req"
    and "unitInterval rnd"
    and "length (keys t) \<le> 1"
    and "MAX_RETRIES - attempt = n"
    and "attempt \<le> MAX_RETRIES"
  shows "\<exists>js e s'.
      withRateLimitHandling_loop rnd (generateContent net req c) attempt t =
        (Inl (Error (''Quota Exceeded or Key Suspended: '' @ lowerMessageOrEmpty e)), s') \<and>
      length js = n \<and> (\<forall>j \<in> set js. 0 \<le> j \<and> j < 4000) \<and>
      trace s' = trace t @ concat (map (\<lambda>j. [Invoke c req, Sleep (8000 + j)]) js) @ [Invoke c req] \<and>
      keys s' = keys t \<and> currentIndex s' = currentIndex t"
  using assms(3-5)
proof (induction n arbitrary: attempt t)
  case 0
  obtain e where e: "net (calls t) c req = Inl e" "isRotationTrigger e" "\<not> isHardQuotaZero e"
    using assms(1) unfolding alwaysFails_def by blast
  let ?t1 = "t\<lparr>calls := Suc (calls t), trace := trace t @ [Invoke c req]\<rparr>"
  have call: "generateContent net req c t = (Inl e, ?t1)"
    using e(1) by (simp add: generateContent_def)
  have last: "attempt = MAX_RETRIES" using "0.prems" by simp
  have "withRateLimitHandling_loop rnd (generateContent net req c) attempt t =
        (Inl (Error (''Quota Exceeded or Key Suspended: '' @ lowerMessageOrEmpty e)), ?t1)"
    unfolding inner_loop_on_failure [where rnd = rnd and apiCall = "generateContent net req c" and s = t,
        OF "0.prems"(3) call]
    using e(2,3) last "0.prems"(1) by (simp del: append.simps)
  then show ?case
    by (intro exI [of _ "[]"] exI [of _ e] exI [of _ ?t1]) simp
next
  case (Suc n)
  obtain e where e: "net (calls t) c req = Inl e" "isRotationTrigger e" "\<not> isHardQuotaZero e"
    using assms(1) unfolding alwaysFails_def by blast
  let ?t1 = "t\<lparr>calls := Suc (calls t), trace := trace t @ [Invoke c req]\<rparr>"
  let ?j = "rnd (draws t) * 4000"
  let ?t2 = "delay (8000 + ?j) (?t1\<lparr>draws := Suc (draws ?t1)\<rparr>)"
  have call: "generateContent net req c t = (Inl e, ?t1)"
    using e(1) by (simp add: generateContent_def)
  have lt: "attempt \<noteq> MAX_RETRIES" "attempt + 1 \<le> MAX_RETRIES" "MAX_RETRIES - (attempt + 1) = n"
    using Suc.prems by simp_all
  have jb: "0 \<le> ?j \<and> ?j < 4000"
    using assms(2) by (simp add: unitInterval_def)
  have step: "withRateLimitHandling_loop rnd (generateContent net req c) attempt t =
        withRateLimitHandling_loop rnd (generateContent net req c) (attempt + 1) ?t2"
    unfolding inner_loop_on_failure [where rnd = rnd and apiCall = "generateContent net req c" and s = t,
        OF Suc.prems(3) call]
    using e(2,3) lt(1) Suc.prems(1) by (simp add: backoffTime_def del: append.simps)
  have keys2: "length (keys ?t2) \<le> 1"
    using Suc.prems(1) by (simp add: delay_def)
  from Suc.IH [OF keys2 lt(3) lt(2)]
  obtain js e' s' where r:
    "withRateLimitHandling_loop rnd (generateContent net req c) (attempt + 1) ?t2 =
        (Inl (Error (''Quota Exceeded or Key Suspended: '' @ lowerMessageOrEmpty e')), s')"
    "length js = n" "\<forall>j \<in> set js. 0 \<le> j \<and> j < 4000"
    "trace s' = trace ?t2 @ concat (map (\<lambda>j. [Invoke c req, Sleep (8000 + j)]) js) @ [Invoke c req]"
    "keys s' = keys ?t2" "currentIndex s' = currentIndex ?t2"
    by blast
  have tr: "trace s' = trace t @ concat (map (\<lambda>j. [Invoke c req, Sleep (8000 + j)]) (?j # js)) @ [Invoke c req]"
    using r(4) by (simp add: delay_def)
  have "length (?j # js) = Suc n" using r(2) by simp
  moreover have "\<forall>j \<in> set (?j # js). 0 \<le> j \<and> j < 4000" using r(3) jb by simp
  moreover have "keys s' = keys t" "currentIndex s' = currentIndex t"
    using r(5,6) by (simp_all add: delay_def)
  ultimately show ?case
    using step r(1) tr by (intro exI [of _ "?j # js"] exI [of _ e'] exI [of _ s']) simp
qed


text \<open>
  C4.  With exactly one key in the pool and every request failing with a rotation trigger
  that is not a hard zero quota, the call executor builds one client, sends the request five
  times with a wait of 8000 ms plus a jitter in \<open>[0, 4000)\<close> between consecutive requests, and
  only then fails, with the "All Gemini API Keys exhausted" error; \<open>currentIndex\<close> keeps the
  value it had after the reload.
\<close>

theorem single_key_retries_then_fails:
  assumes "length (keys (loadKeys rnd cfg s)) = 1"
    and "alwaysFails (\<lambda>e. isRotationTrigger e \<and> \<not> isHardQuotaZero e) net req"
    and "unitInterval rnd"
  shows "\<exists>c j1 j2 j3 j4 e s'.
      executeWithKeyRotation rnd cfg (generateContent net req) modelName s =
        (Inl (Error (''All Gemini API Keys exhausted (Quota/Suspended). Last error: '' @
               lowerMessageOrEmpty (Error (''Quota Exceeded or Key Suspended: '' @ lowerMessageOrEmpty e)))),
         s') \<and>
      0 \<le> j1 \<and> j1 < 4000 \<and> 0 \<le> j2 \<and> j2 < 4000 \<and> 0 \<le> j3 \<and> j3 < 4000 \<and> 0 \<le> j4 \<and> j4 < 4000 \<and>
      trace s' = trace s @
        [NewClient c,
         Invoke c req, Sleep (8000 + j1),
         Invoke c req, Sleep (8000 + j2),
         Invoke c req, Sleep (8000 + j3),
         Invoke c req, Sleep (8000 + j4),
         Invoke c req] \<and>
      keys s' = keys (loadKeys rnd cfg s) \<and>
      currentIndex s' = currentIndex (loadKeys rnd cfg s)"
proof -
  let ?s0 = "loadKeys rnd cfg s"
  let ?c = "keyAt (keys ?s0) (currentIndex ?s0)"
  let ?sA = "?s0\<lparr>trace := trace ?s0 @ [NewClient ?c]\<rparr>"
  have draw: "0 \<le> rnd (draws s)" "rnd (draws s) < 1"
    using assms(3) by (simp_all add: unitInterval_def)
  have again: "loadKeys rnd cfg ?s0 = ?s0"
    using draw by (rule loadKeys_idem)
  have ne: "keys ?s0 \<noteq> []"
    using assms(1) by auto
  have client: "getAiClient rnd cfg ?s0 = (Inr ?c, ?sA)"
    using ne by (simp add: getAiClient_def getCurrentKey_def Let_def again)
  have one: "length (keys ?sA) \<le> 1" using assms(1) by simp
  have first: "1 \<le> MAX_RETRIES" by (simp add: MAX_RETRIES_def)
  from single_key_inner [OF assms(2,3) one refl first, of ?c]
  obtain js e s' where r:
    "withRateLimitHandling_loop rnd (generateContent net req ?c) 1 ?sA =
        (Inl (Error (''Quota Exceeded or Key Suspended: '' @ lowerMessageOrEmpty e)), s')"
    "length js = MAX_RETRIES - 1" "\<forall>j \<in> set js. 0 \<le> j \<and> j < 4000"
    "trace s' = trace ?sA @ concat (map (\<lambda>j. [Invoke ?c req, Sleep (8000 + j)]) js) @ [Invoke ?c req]"
    "keys s' = keys ?sA" "currentIndex s' = currentIndex ?sA"
    by blast
  have "length js = Suc (Suc (Suc (Suc 0)))"
    using r(2) by (simp add: MAX_RETRIES_def)
  then obtain j1 j2 j3 j4 where js: "js = [j1, j2, j3, j4]"
    by (auto simp: length_Suc_conv)
  have attempt: "tryAttempt rnd cfg (generateContent net req) ?s0 =
        (Inl (Error (''Quota Exceeded or Key Suspended: '' @ lowerMessageOrEmpty e)), s')"
    using client r(1) by (simp add: tryAttempt_def withRateLimitHandling_def del: append.simps)
  have single: "\<not> 1 < length (keys s')"
    using r(5) assms(1) by simp
  have loop: "executeWithKeyRotation_loop rnd cfg (generateContent net req) 1 0 ?s0 =
        (Inl (Error (''All Gemini API Keys exhausted (Quota/Suspended). Last error: '' @
               lowerMessageOrEmpty (Error (''Quota Exceeded or Key Suspended: '' @ lowerMessageOrEmpty e)))),
         s')"
    unfolding outer_loop_on_failure [where attempt = 0 and maxAttempts = 1, OF zero_less_one attempt]
    using single wrapped_suspended_rotation [of "lowerMessageOrEmpty e"]
    by (simp del: append.simps)
  have run: "executeWithKeyRotation rnd cfg (generateContent net req) modelName s =
        (Inl (Error (''All Gemini API Keys exhausted (Quota/Suspended). Last error: '' @
               lowerMessageOrEmpty (Error (''Quota Exceeded or Key Suspended: '' @ lowerMessageOrEmpty e)))),
         s')"
    using loop assms(1) ne by (simp add: executeWithKeyRotation_def maxAttemptsOf_def del: append.simps)
  have tr: "trace s' = trace s @
        [NewClient ?c,
         Invoke ?c req, Sleep (8000 + j1),
         Invoke ?c req, Sleep (8000 + j2),
         Invoke ?c req, Sleep (8000 + j3),
         Invoke ?c req, Sleep (8000 + j4),
         Invoke ?c req]"
    using r(4) by (simp add: js trace_loadKeys)
  have bounds: "0 \<le> j1 \<and> j1 < 4000 \<and> 0 \<le> j2 \<and> j2 < 4000 \<and> 0 \<le> j3 \<and> j3 < 4000 \<and> 0 \<le> j4 \<and> j4 < 4000"
    using r(3) by (simp add: js)
  have same: "keys s' = keys ?s0" "currentIndex s' = currentIndex ?s0"
    using r(5,6) by simp_all
  show ?thesis
    using run bounds tr same by blast
qed

lemma netRateLimited_alwaysFails_soft:
  "alwaysFails (\<lambda>e. isRotationTrigger e \<and> \<not> isHardQuotaZero e) netRateLimited proRequest"
  using rateLimited_rotation rateLimited_not_hard by (simp add: alwaysFails_def netRateLimited_def)

theorem single_key_retries_then_fails_witness:
  "length (keys (loadKeys rndFixed storageK initialState)) = 1 \<and>
   alwaysFails (\<lambda>e. isRotationTrigger e \<and> \<not> isHardQuotaZero e) netRateLimited proRequest \<and>
   unitInterval rndFixed \<and>
   (\<exists>c j1 j2 j3 j4 e s'.
      executeWithKeyRotation rndFixed storageK (generateContent netRateLimited proRequest) ''gemini-2.5-pro''
          initialState =
        (Inl (Error (''All Gemini API Keys exhausted (Quota/Suspended). Last error: '' @
               lowerMessageOrEmpty (Error (''Quota Exceeded or Key Suspended: '' @ lowerMessageOrEmpty e)))),
         s') \<and>
      0 \<le> j1 \<and> j1 < 4000 \<and> 0 \<le> j2 \<and> j2 < 4000 \<and> 0 \<le> j3 \<and> j3 < 4000 \<and> 0 \<le> j4 \<and> j4 < 4000 \<and>
      trace s' = trace initialState @
        [NewClient c,
         Invoke c proRequest, Sleep (8000 + j1),
         Invoke c proRequest, Sleep (8000 + j2),
         Invoke c proRequest, Sleep (8000 + j3),
         Invoke c proRequest, Sleep (8000 + j4),
         Invoke c proRequest] \<and>
      keys s' = keys (loadKeys rndFixed storageK initialState) \<and>
      currentIndex s' = currentIndex (loadKeys rndFixed storageK initialState))"
proof -
  have one: "length (keys (loadKeys rndFixed storageK initialState)) = 1"
    by (simp add: keys_loadKeys configuredKeys_storageK)
  show ?thesis
    by (intro conjI one netRateLimited_alwaysFails_soft unitInterval_rndFixed
        single_key_retries_then_fails [OF one netRateLimited_alwaysFails_soft unitInterval_rndFixed])
qed

section \<open>A hard zero quota\<close>

text \<open>
  C1, as the code has it.  At any inner attempt, a call that fails with a hard zero quota
  ends the inner loop at once, with the "API Quota Exceeded (Limit: 0) or Model Unavailable"
  error and the state the call left: no further inner attempt and no backoff wait.  The outer
  loop takes that error for a rotation trigger.  With more than one key it rotates, waits the
  cooldown of 10000 ms and goes on to the next outer attempt; with at most one key it ends the
  call with an error and does not rotate.
\<close>

theorem hard_quota_zero_ends_inner_loop:
  "(\<forall>error s1.
      attempt \<le> MAX_RETRIES \<and> apiCall s = (Inl error, s1) \<and> isHardQuotaZero error \<longrightarrow>
      withRateLimitHandling_loop rnd apiCall attempt s =
        (Inl (Error (''API Quota Exceeded (Limit: 0) or Model Unavailable: '' @ lowerMessageOrEmpty error)),
         s1)) \<and>
   (\<forall>msg t1.
      outerAttempt < maxAttempts \<and>
      tryAttempt rnd cfg operation t =
        (Inl (Error (''API Quota Exceeded (Limit: 0) or Model Unavailable: '' @ msg)), t1) \<longrightarrow>
      executeWithKeyRotation_loop rnd cfg operation maxAttempts outerAttempt t =
        (if 1 < length (keys t1) then
           executeWithKeyRotation_loop rnd cfg operation maxAttempts (outerAttempt + 1)
             (delay 10000 (snd (rotate_key t1)))
         else if outerAttempt = maxAttempts - 1 then
           (Inl (Error (''All Gemini API Keys exhausted (Quota/Suspended). Last error: '' @
                  lowerMessageOrEmpty
                    (Error (''API Quota Exceeded (Limit: 0) or Model Unavailable: '' @ msg)))),
            t1)
         else (Inl (Error (''API Quota Exceeded (Limit: 0) or Model Unavailable: '' @ msg)), t1)))"
proof (intro conjI allI impI)
  fix error s1
  assume h: "attempt \<le> MAX_RETRIES \<and> apiCall s = (Inl error, s1) \<and> isHardQuotaZero error"
  then have le: "attempt \<le> MAX_RETRIES" and call: "apiCall s = (Inl error, s1)"
      and hard: "isHardQuotaZero error"
    by simp_all
  show "withRateLimitHandling_loop rnd apiCall attempt s =
        (Inl (Error (''API Quota Exceeded (Limit: 0) or Model Unavailable: '' @ lowerMessageOrEmpty error)),
         s1)"
    unfolding inner_loop_on_failure [where rnd = rnd and apiCall = apiCall and s = s, OF le call]
    using hard by (simp del: append.simps)
next
  fix msg t1
  assume h: "outerAttempt < maxAttempts \<and>
      tryAttempt rnd cfg operation t =
        (Inl (Error (''API Quota Exceeded (Limit: 0) or Model Unavailable: '' @ msg)), t1)"
  then have lt: "outerAttempt < maxAttempts"
    and failed: "tryAttempt rnd cfg operation t =
        (Inl (Error (''API Quota Exceeded (Limit: 0) or Model Unavailable: '' @ msg)), t1)"
    by simp_all
  show "executeWithKeyRotation_loop rnd cfg operation maxAttempts outerAttempt t =
        (if 1 < length (keys t1) then
           executeWithKeyRotation_loop rnd cfg operation maxAttempts (outerAttempt + 1)
             (delay 10000 (snd (rotate_key t1)))
         else if outerAttempt = maxAttempts - 1 then
           (Inl (Error (''All Gemini API Keys exhausted (Quota/Suspended). Last error: '' @
                  lowerMessageOrEmpty
                    (Error (''API Quota Exceeded (Limit: 0) or Model Unavailable: '' @ msg)))),
            t1)
         else (Inl (Error (''API Quota Exceeded (Limit: 0) or Model Unavailable: '' @ msg)), t1))"
    unfolding outer_loop_on_failure [OF lt failed]
    using wrapped_hard_quota_rotation [of msg] by (simp del: append.simps)
qed

lemma zeroQuota_hard: "isHardQuotaZero (Error ''Quota exceeded, limit: 0'')"
  by code_simp

lemma zeroQuota_call:
  "generateContent netZeroQuotaFirst proRequest (Some ''B'') initialState =
     (Inl (Error ''Quota exceeded, limit: 0''),
      initialState\<lparr>calls := 1, trace := [Invoke (Some ''B'') proRequest]\<rparr>)"
  by (simp add: generateContent_def netZeroQuotaFirst_def initialState_def)

lemma zeroQuota_attempt:
  "tryAttempt rndFixed storageAB (generateContent netZeroQuotaFirst proRequest) initialState =
     (Inl (Error (''API Quota Exceeded (Limit: 0) or Model Unavailable: '' @ ''quota exceeded, limit: 0'')),
      \<lparr>keys = [''A'', ''B''], currentIndex = 1, initialized = True, draws = 1, calls = 1,
       trace = [NewClient (Some ''B''), Invoke (Some ''B'') proRequest]\<rparr>)"
  by code_simp

theorem hard_quota_zero_ends_inner_loop_witness:
  "(3::nat) \<le> MAX_RETRIES \<and>
   generateContent netZeroQuotaFirst proRequest (Some ''B'') initialState =
     (Inl (Error ''Quota exceeded, limit: 0''),
      initialState\<lparr>calls := 1, trace := [Invoke (Some ''B'') proRequest]\<rparr>) \<and>
   isHardQuotaZero (Error ''Quota exceeded, limit: 0'') \<and>
   withRateLimitHandling_loop rndFixed (generateContent netZeroQuotaFirst proRequest (Some ''B'')) 3 initialState =
     (Inl (Error (''API Quota Exceeded (Limit: 0) or Model Unavailable: '' @
                    lowerMessageOrEmpty (Error ''Quota exceeded, limit: 0''))),
      initialState\<lparr>calls := 1, trace := [Invoke (Some ''B'') proRequest]\<rparr>) \<and>
   (0::nat) < 2 \<and>
   tryAttempt rndFixed storageAB (generateContent netZeroQuotaFirst proRequest) initialState =
     (Inl (Error (''API Quota Exceeded (Limit: 0) or Model Unavailable: '' @ ''quota exceeded, limit: 0'')),
      \<lparr>keys = [''A'', ''B''], currentIndex = 1, initialized = True, draws = 1, calls = 1,
       trace = [NewClient (Some ''B''), Invoke (Some ''B'') proRequest]\<rparr>) \<and>
   executeWithKeyRotation_loop rndFixed storageAB (generateContent netZeroQuotaFirst proRequest) 2 0 initialState =
     executeWithKeyRotation_loop rndFixed storageAB (generateContent netZeroQuotaFirst proRequest) 2 (0 + 1)
       (delay 10000 (snd (rotate_key
          \<lparr>keys = [''A'', ''B''], currentIndex = 1, initialized = True, draws = 1, calls = 1,
           trace = [NewClient (Some ''B''), Invoke (Some ''B'') proRequest]\<rparr>)))"
proof -
  have le: "(3::nat) \<le> MAX_RETRIES" by (simp add: MAX_RETRIES_def)
  have lt: "(0::nat) < 2" by simp
  have inner: "withRateLimitHandling_loop rndFixed (generateContent netZeroQuotaFirst proRequest (Some ''B'')) 3
       initialState =
     (Inl (Error (''API Quota Exceeded (Limit: 0) or Model Unavailable: '' @
                    lowerMessageOrEmpty (Error ''Quota exceeded, limit: 0''))),
      initialState\<lparr>calls := 1, trace := [Invoke (Some ''B'') proRequest]\<rparr>)"
    using hard_quota_zero_ends_inner_loop [where attempt = 3 and s = initialState
        and apiCall = "generateContent netZeroQuotaFirst proRequest (Some ''B'')" and rnd = rndFixed,
        THEN conjunct1, THEN spec, THEN spec, THEN mp,
        OF conjI [OF le conjI [OF zeroQuota_call zeroQuota_hard]]] .
  have outer: "executeWithKeyRotation_loop rndFixed storageAB (generateContent netZeroQuotaFirst proRequest) 2 0
       initialState =
     executeWithKeyRotation_loop rndFixed storageAB (generateContent netZeroQuotaFirst proRequest) 2 (0 + 1)
       (delay 10000 (snd (rotate_key
          \<lparr>keys = [''A'', ''B''], currentIndex = 1, initialized = True, draws = 1, calls = 1,
           trace = [NewClient (Some ''B''), Invoke (Some ''B'') proRequest]\<rparr>)))"
    using hard_quota_zero_ends_inner_loop [where outerAttempt = 0 and maxAttempts = 2 and t = initialState
        and operation = "generateContent netZeroQuotaFirst proRequest" and rnd = rndFixed and cfg = storageAB,
        THEN conjunct2, THEN spec, THEN spec, THEN mp, OF conjI [OF lt zeroQuota_attempt]]
    by (simp del: append.simps)
  show ?thesis
    by (intro conjI le zeroQuota_call zeroQuota_hard inner lt zeroQuota_attempt outer)
qed

text \<open>
  C1, as stated, does not hold for a pool of two keys: the first request fails with a hard
  zero quota, and the call executor still rotates from "B" to "A", waits 10000 ms, sends the
  request again and returns its answer.
\<close>

theorem hard_quota_zero_rotates_counterexample:
  "isHardQuotaZero (Error ''Quota exceeded, limit: 0'') \<and>
   netZeroQuotaFirst 0 (Some ''B'') proRequest = Inl (Error ''Quota exceeded, limit: 0'') \<and>
   executeWithKeyRotation rndFixed storageAB (generateContent netZeroQuotaFirst proRequest) ''gemini-2.5-pro''
       initialState =
     (Inr ''text'',
      \<lparr>keys = [''A'', ''B''], currentIndex = 0, initialized = True, draws = 1, calls = 2,
       trace = [NewClient (Some ''B''), Invoke (Some ''B'') proRequest, Sleep 10000,
                NewClient (Some ''A''), Invoke (Some ''A'') proRequest]\<rparr>)"
  by code_simp

section \<open>Exhausting a pool of several credentials\<close>

text \<open>
  C2.  With the two keys "A" and "B" and every request failing with
  "429 Too Many Requests", both outer attempts rotate, and the error that ends the call is
  "All Gemini API Keys exhausted (Rotation loop ended without success)."; the text
  of the last underlying error is not part of it.
\<close>

theorem exhausted_pool_error_omits_last_error:
  "executeWithKeyRotation rndFixed storageAB (generateContent netRateLimited proRequest) ''gemini-2.5-pro''
       initialState =
     (Inl (Error ''All Gemini API Keys exhausted (Rotation loop ended without success).''),
      \<lparr>keys = [''A'', ''B''], currentIndex = 1, initialized = True, draws = 1, calls = 2,
       trace = [NewClient (Some ''B''), Invoke (Some ''B'') proRequest, Sleep 10000,
                NewClient (Some ''A''), Invoke (Some ''A'') proRequest, Sleep 10000]\<rparr>) \<and>
   \<not> includesStr (toLowerCase ''All Gemini API Keys exhausted (Rotation loop ended without success).'')
         (toLowerCase ''429 Too Many Requests'') \<and>
   \<not> includesStr (toLowerCase ''All Gemini API Keys exhausted (Rotation loop ended without success).'')
         ''429''"
  by code_simp

section \<open>The inner retry loop: backoff after a transient failure\<close>

lemma backoffTime_transient:
  "backoffTime False k r = 2 ^ k * 1000 + r * 500"
  by (simp add: backoffTime_def)

lemma transient_step:
  assumes "attempt < MAX_RETRIES"
    and "net (calls s) c req = Inl error"
    and "\<not> isHardQuotaZero error"
    and "\<not> isRotationTrigger error"
  shows "withRateLimitHandling_loop rnd (generateContent net req c) attempt s =
         withRateLimitHandling_loop rnd (generateContent net req c) (attempt + 1)
           (delay (2 ^ attempt * 1000 + rnd (draws s) * 500)
              (s\<lparr>calls := Suc (calls s), trace := trace s @ [Invoke c req], draws := Suc (draws s)\<rparr>))"
proof -
  let ?s1 = "s\<lparr>calls := Suc (calls s), trace := trace s @ [Invoke c req]\<rparr>"
  have call: "generateContent net req c s = (Inl error, ?s1)"
    using assms(2) by (simp add: generateContent_def)
  have le: "attempt \<le> MAX_RETRIES" using assms(1) by simp
  show ?thesis
    unfolding inner_loop_on_failure [where rnd = rnd and apiCall = "generateContent net req c" and s = s,
        OF le call]
    using assms(1,3,4) by (simp add: backoffTime_transient del: append.simps)
qed

lemma transient_last:
  assumes "net (calls s) c req = Inl error"
    and "\<not> isHardQuotaZero error"
    and "\<not> isRotationTrigger error"
  shows "withRateLimitHandling_loop rnd (generateContent net req c) MAX_RETRIES s =
         (Inl error, s\<lparr>calls := Suc (calls s), trace := trace s @ [Invoke c req]\<rparr>)"
proof -
  let ?s1 = "s\<lparr>calls := Suc (calls s), trace := trace s @ [Invoke c req]\<rparr>"
  have call: "generateContent net req c s = (Inl error, ?s1)"
    using assms(1) by (simp add: generateContent_def)
  show ?thesis
    unfolding inner_loop_on_failure [where rnd = rnd and apiCall = "generateContent net req c" and s = s,
        OF order_refl call]
    using assms(2,3) by (simp del: append.simps)
qed

lemma transient_run:
  assumes "alwaysFails (\<lambda>e. \<not> isHardQuotaZero e \<and> \<not> isRotationTrigger e) net req"
  shows "\<exists>e t'.
      withRateLimitHandling rnd (generateContent net req c) t = (Inl e, t') \<and>
      trace t' = trace t @
        [Invoke c req, Sleep (2 ^ 1 * 1000 + rnd (draws t) * 500),
         Invoke c req, Sleep (2 ^ 2 * 1000 + rnd (draws t + 1) * 500),
         Invoke c req, Sleep (2 ^ 3 * 1000 + rnd (draws t + 2) * 500),
         Invoke c req, Sleep (2 ^ 4 * 1000 + rnd (draws t + 3) * 500),
         Invoke c req]"
proof -
  define nxt where "nxt = (\<lambda>k u. delay (2 ^ k * 1000 + rnd (draws u) * 500)
              (u\<lparr>calls := Suc (calls u), trace := trace u @ [Invoke c req], draws := Suc (draws u)\<rparr>))"
  let ?loop = "withRateLimitHandling_loop rnd (generateContent net req c)"
  have nxt: "trace (nxt k u) = trace u @ [Invoke c req, Sleep (2 ^ k * 1000 + rnd (draws u) * 500)]"
      "draws (nxt k u) = draws u + 1" for k u
    by (simp_all add: nxt_def delay_def)
  have fails: "\<exists>e. net n c req = Inl e \<and> \<not> isHardQuotaZero e \<and> \<not> isRotationTrigger e" for n
    using assms unfolding alwaysFails_def by blast
  have step: "?loop k u = ?loop k' (nxt k u)" if "k < MAX_RETRIES" "k' = k + 1" for k k' u
    unfolding nxt_def
    using fails [of "calls u"] transient_step [OF that(1), of net u c req _ rnd] that(2) by blast
  have lt: "1 < MAX_RETRIES" "2 < MAX_RETRIES" "3 < MAX_RETRIES" "4 < MAX_RETRIES"
    by (simp_all add: MAX_RETRIES_def)
  define t1 where "t1 = nxt 1 t"
  define t2 where "t2 = nxt 2 t1"
  define t3 where "t3 = nxt 3 t2"
  define t4 where "t4 = nxt 4 t3"
  have "?loop 1 t = ?loop 2 t1"
    unfolding t1_def by (rule step [OF lt(1)]) simp
  also have "\<dots> = ?loop 3 t2"
    unfolding t2_def by (rule step [OF lt(2)]) simp
  also have "\<dots> = ?loop 4 t3"
    unfolding t3_def by (rule step [OF lt(3)]) simp
  also have "\<dots> = ?loop 5 t4"
    unfolding t4_def by (rule step [OF lt(4)]) simp
  finally have chain: "?loop 1 t = ?loop MAX_RETRIES t4"
    by (simp add: MAX_RETRIES_def)
  obtain e where e: "net (calls t4) c req = Inl e" "\<not> isHardQuotaZero e" "\<not> isRotationTrigger e"
    using fails [of "calls t4"] by blast
  define t5 where "t5 = t4\<lparr>calls := Suc (calls t4), trace := trace t4 @ [Invoke c req]\<rparr>"
  have run: "withRateLimitHandling rnd (generateContent net req c) t = (Inl e, t5)"
    unfolding withRateLimitHandling_def chain t5_def by (rule transient_last [where net = net and s = t4 and c = c and req = req, OF e])
  have d: "draws t1 = draws t + 1" "draws t2 = draws t + 2" "draws t3 = draws t + 3"
    by (simp_all add: t1_def t2_def t3_def nxt(2))
  have "trace t5 = trace t4 @ [Invoke c req]"
    by (simp add: t5_def)
  also have "trace t4 = trace t3 @ [Invoke c req, Sleep (2 ^ 4 * 1000 + rnd (draws t + 3) * 500)]"
    unfolding t4_def nxt(1) d ..
  also have "trace t3 = trace t2 @ [Invoke c req, Sleep (2 ^ 3 * 1000 + rnd (draws t + 2) * 500)]"
    unfolding t3_def nxt(1) d ..
  also have "trace t2 = trace t1 @ [Invoke c req, Sleep (2 ^ 2 * 1000 + rnd (draws t + 1) * 500)]"
    unfolding t2_def nxt(1) d ..
  also have "trace t1 = trace t @ [Invoke c req, Sleep (2 ^ 1 * 1000 + rnd (draws t) * 500)]"
    unfolding t1_def nxt(1) ..
  finally have "trace t5 = trace t @
        [Invoke c req, Sleep (2 ^ 1 * 1000 + rnd (draws t) * 500),
         Invoke c req, Sleep (2 ^ 2 * 1000 + rnd (draws t + 1) * 500),
         Invoke c req, Sleep (2 ^ 3 * 1000 + rnd (draws t + 2) * 500),
         Invoke c req, Sleep (2 ^ 4 * 1000 + rnd (draws t + 3) * 500),
         Invoke c req]"
    by (simp del: power_numeral)
  then show ?thesis using run by blast
qed

text \<open>
  C5.  Let the request of inner attempt \<open>attempt < 5\<close> fail with an error that is neither a
  hard zero quota nor a rotation trigger.  Then, however the loop ends, the trace it leaves
  continues with that request and a wait of \<open>2 ^ attempt * 1000\<close> ms plus a jitter in
  \<open>[0, 500)\<close>, and the loop goes on with attempt \<open>attempt + 1\<close> from the state after the wait.
  When every request fails in this way, a run of \<open>withRateLimitHandling\<close> sends five
  requests with the waits \<open>2 ^ 1 * 1000\<close>, \<open>2 ^ 2 * 1000\<close>, \<open>2 ^ 3 * 1000\<close> and
  \<open>2 ^ 4 * 1000\<close> ms, each plus its jitter, between them, and throws the last error.  The
  wait without jitter is \<open>2 ^ k * 1000\<close> and grows strictly with \<open>k\<close>.  Times are taken as
  real numbers.
\<close>

theorem transient_backoff_wait:
  assumes "unitInterval rnd"
  shows "(\<forall>error res s'.
            attempt < MAX_RETRIES \<and> net (calls s) c req = Inl error \<and>
            \<not> isHardQuotaZero error \<and> \<not> isRotationTrigger error \<and>
            withRateLimitHandling_loop rnd (generateContent net req c) attempt s = (res, s') \<longrightarrow>
            (\<exists>jitter evs. 0 \<le> jitter \<and> jitter < 500 \<and>
               trace s' = trace s @ [Invoke c req, Sleep (2 ^ attempt * 1000 + jitter)] @ evs \<and>
               (res, s') =
                 withRateLimitHandling_loop rnd (generateContent net req c) (attempt + 1)
                   (delay (2 ^ attempt * 1000 + jitter)
                      (s\<lparr>calls := Suc (calls s), trace := trace s @ [Invoke c req],
                         draws := Suc (draws s)\<rparr>)))) \<and>
         (alwaysFails (\<lambda>e. \<not> isHardQuotaZero e \<and> \<not> isRotationTrigger e) net req \<longrightarrow>
            (\<exists>j1 j2 j3 j4 e t'.
               withRateLimitHandling rnd (generateContent net req c) t = (Inl e, t') \<and>
               0 \<le> j1 \<and> j1 < 500 \<and> 0 \<le> j2 \<and> j2 < 500 \<and> 0 \<le> j3 \<and> j3 < 500 \<and> 0 \<le> j4 \<and> j4 < 500 \<and>
               trace t' = trace t @
                 [Invoke c req, Sleep (2 ^ 1 * 1000 + j1),
                  Invoke c req, Sleep (2 ^ 2 * 1000 + j2),
                  Invoke c req, Sleep (2 ^ 3 * 1000 + j3),
                  Invoke c req, Sleep (2 ^ 4 * 1000 + j4),
                  Invoke c req])) \<and>
         (\<forall>k r. backoffTime False k r = 2 ^ k * 1000 + r * 500 \<and>
                backoffTime False k 0 < backoffTime False (Suc k) 0)"
proof (intro conjI allI impI)
  fix error res s'
  assume h: "attempt < MAX_RETRIES \<and> net (calls s) c req = Inl error \<and>
            \<not> isHardQuotaZero error \<and> \<not> isRotationTrigger error \<and>
            withRateLimitHandling_loop rnd (generateContent net req c) attempt s = (res, s')"
  let ?j = "rnd (draws s) * 500"
  let ?s2 = "delay (2 ^ attempt * 1000 + ?j)
               (s\<lparr>calls := Suc (calls s), trace := trace s @ [Invoke c req], draws := Suc (draws s)\<rparr>)"
  have bounds: "0 \<le> ?j" "?j < 500"
    using assms by (simp_all add: unitInterval_def)
  have lt: "attempt < MAX_RETRIES" and call: "net (calls s) c req = Inl error"
    and soft: "\<not> isHardQuotaZero error" "\<not> isRotationTrigger error"
    using h by simp_all
  have step: "withRateLimitHandling_loop rnd (generateContent net req c) attempt s =
              withRateLimitHandling_loop rnd (generateContent net req c) (attempt + 1) ?s2"
    using lt call soft by (rule transient_step)
  then have rest: "withRateLimitHandling_loop rnd (generateContent net req c) (attempt + 1) ?s2 = (res, s')"
    using h by simp
  from inner_loop_effects [OF refl rest]
  obtain evs where "trace s' = trace ?s2 @ evs" by blast
  then have "trace s' = trace s @ [Invoke c req, Sleep (2 ^ attempt * 1000 + ?j)] @ evs"
    by (simp add: delay_def)
  then show "\<exists>jitter evs. 0 \<le> jitter \<and> jitter < 500 \<and>
               trace s' = trace s @ [Invoke c req, Sleep (2 ^ attempt * 1000 + jitter)] @ evs \<and>
               (res, s') =
                 withRateLimitHandling_loop rnd (generateContent net req c) (attempt + 1)
                   (delay (2 ^ attempt * 1000 + jitter)
                      (s\<lparr>calls := Suc (calls s), trace := trace s @ [Invoke c req],
                         draws := Suc (draws s)\<rparr>))"
    using bounds rest by (intro exI [of _ ?j] exI [of _ evs]) simp
next
  assume "alwaysFails (\<lambda>e. \<not> isHardQuotaZero e \<and> \<not> isRotationTrigger e) net req"
  from transient_run [OF this, of rnd c t]
  obtain e t' where run: "withRateLimitHandling rnd (generateContent net req c) t = (Inl e, t')"
    and tr: "trace t' = trace t @
        [Invoke c req, Sleep (2 ^ 1 * 1000 + rnd (draws t) * 500),
         Invoke c req, Sleep (2 ^ 2 * 1000 + rnd (draws t + 1) * 500),
         Invoke c req, Sleep (2 ^ 3 * 1000 + rnd (draws t + 2) * 500),
         Invoke c req, Sleep (2 ^ 4 * 1000 + rnd (draws t + 3) * 500),
         Invoke c req]"
    by blast
  have bounds: "0 \<le> rnd n * 500 \<and> rnd n * 500 < 500" for n
    using assms by (simp add: unitInterval_def)
  show "\<exists>j1 j2 j3 j4 e t'.
               withRateLimitHandling rnd (generateContent net req c) t = (Inl e, t') \<and>
               0 \<le> j1 \<and> j1 < 500 \<and> 0 \<le> j2 \<and> j2 < 500 \<and> 0 \<le> j3 \<and> j3 < 500 \<and> 0 \<le> j4 \<and> j4 < 500 \<and>
               trace t' = trace t @
                 [Invoke c req, Sleep (2 ^ 1 * 1000 + j1),
                  Invoke c req, Sleep (2 ^ 2 * 1000 + j2),
                  Invoke c req, Sleep (2 ^ 3 * 1000 + j3),
                  Invoke c req, Sleep (2 ^ 4 * 1000 + j4),
                  Invoke c req]"
    using run tr bounds [of "draws t"] bounds [of "draws t + 1"] bounds [of "draws t + 2"]
      bounds [of "draws t + 3"]
    by (intro exI [of _ "rnd (draws t) * 500"] exI [of _ "rnd (draws t + 1) * 500"]
        exI [of _ "rnd (draws t + 2) * 500"] exI [of _ "rnd (draws t + 3) * 500"]
        exI [of _ e] exI [of _ t']) simp
next
  fix k r
  show "backoffTime False k r = 2 ^ k * 1000 + r * 500"
    by (rule backoffTime_transient)
  show "backoffTime False k 0 < backoffTime False (Suc k) 0"
    by (simp add: backoffTime_transient)
qed

lemma unavailable_not_HardQuotaZero: "\<not> isHardQuotaZero (Error ''503 Service Unavailable'')"
  by (simp add: isHardQuotaZero_def lowerMessageOrEmpty_def toLowerCase_def toLowerChar_def
      includesStr_def sublist_code)

lemma unavailable_not_RotationTrigger: "\<not> isRotationTrigger (Error ''503 Service Unavailable'')"
  by (simp add: isRotationTrigger_def lowerMessageOrString_def toLowerCase_def toLowerChar_def
      includesStr_def sublist_code)


lemma netOverloaded_alwaysFails:
  "alwaysFails (\<lambda>e. \<not> isHardQuotaZero e \<and> \<not> isRotationTrigger e) netOverloaded proRequest"
  using unavailable_not_HardQuotaZero unavailable_not_RotationTrigger
  by (simp add: alwaysFails_def netOverloaded_def)

lemma overloaded_run:
  "withRateLimitHandling_loop rndFixed (generateContent netOverloaded proRequest (Some ''A'')) 1 initialState =
     (Inl (Error ''503 Service Unavailable''),
      \<lparr>keys = [], currentIndex = 0, initialized = False, draws = 4, calls = 5,
       trace = [Invoke (Some ''A'') proRequest, Sleep 2375,
                Invoke (Some ''A'') proRequest, Sleep 4375,
                Invoke (Some ''A'') proRequest, Sleep 8375,
                Invoke (Some ''A'') proRequest, Sleep 16375,
                Invoke (Some ''A'') proRequest]\<rparr>)"
  by code_simp

theorem transient_backoff_wait_witness:
  "unitInterval rndFixed \<and>
   (1::nat) < MAX_RETRIES \<and>
   netOverloaded (calls initialState) (Some ''A'') proRequest = Inl (Error ''503 Service Unavailable'') \<and>
   \<not> isHardQuotaZero (Error ''503 Service Unavailable'') \<and>
   \<not> isRotationTrigger (Error ''503 Service Unavailable'') \<and>
   withRateLimitHandling_loop rndFixed (generateContent netOverloaded proRequest (Some ''A'')) 1 initialState =
     (Inl (Error ''503 Service Unavailable''),
      \<lparr>keys = [], currentIndex = 0, initialized = False, draws = 4, calls = 5,
       trace = [Invoke (Some ''A'') proRequest, Sleep 2375,
                Invoke (Some ''A'') proRequest, Sleep 4375,
                Invoke (Some ''A'') proRequest, Sleep 8375,
                Invoke (Some ''A'') proRequest, Sleep 16375,
                Invoke (Some ''A'') proRequest]\<rparr>) \<and>
   (\<exists>jitter evs. 0 \<le> jitter \<and> jitter < 500 \<and>
      [Invoke (Some ''A'') proRequest, Sleep 2375,
       Invoke (Some ''A'') proRequest, Sleep 4375,
       Invoke (Some ''A'') proRequest, Sleep 8375,
       Invoke (Some ''A'') proRequest, Sleep 16375,
       Invoke (Some ''A'') proRequest] =
      trace initialState @ [Invoke (Some ''A'') proRequest, Sleep (2 ^ 1 * 1000 + jitter)] @ evs) \<and>
   alwaysFails (\<lambda>e. \<not> isHardQuotaZero e \<and> \<not> isRotationTrigger e) netOverloaded proRequest \<and>
   (\<exists>j1 j2 j3 j4 e t'.
      withRateLimitHandling rndFixed (generateContent netOverloaded proRequest (Some ''A'')) initialState =
        (Inl e, t') \<and>
      0 \<le> j1 \<and> j1 < 500 \<and> 0 \<le> j2 \<and> j2 < 500 \<and> 0 \<le> j3 \<and> j3 < 500 \<and> 0 \<le> j4 \<and> j4 < 500 \<and>
      trace t' = trace initialState @
        [Invoke (Some ''A'') proRequest, Sleep (2 ^ 1 * 1000 + j1),
         Invoke (Some ''A'') proRequest, Sleep (2 ^ 2 * 1000 + j2),
         Invoke (Some ''A'') proRequest, Sleep (2 ^ 3 * 1000 + j3),
         Invoke (Some ''A'') proRequest, Sleep (2 ^ 4 * 1000 + j4),
         Invoke (Some ''A'') proRequest])"
proof -
  note inst = transient_backoff_wait [where rnd = rndFixed and attempt = 1 and net = netOverloaded
      and s = initialState and t = initialState and c = "Some ''A''" and req = proRequest,
      OF unitInterval_rndFixed]
  have lt: "(1::nat) < MAX_RETRIES"
    by (simp add: MAX_RETRIES_def)
  have call: "netOverloaded (calls initialState) (Some ''A'') proRequest = Inl (Error ''503 Service Unavailable'')"
    by (simp add: netOverloaded_def)
  have hyps: "(1::nat) < MAX_RETRIES \<and>
      netOverloaded (calls initialState) (Some ''A'') proRequest = Inl (Error ''503 Service Unavailable'') \<and>
      \<not> isHardQuotaZero (Error ''503 Service Unavailable'') \<and>
      \<not> isRotationTrigger (Error ''503 Service Unavailable'') \<and>
      withRateLimitHandling_loop rndFixed (generateContent netOverloaded proRequest (Some ''A'')) 1 initialState =
        (Inl (Error ''503 Service Unavailable''),
         \<lparr>keys = [], currentIndex = 0, initialized = False, draws = 4, calls = 5,
          trace = [Invoke (Some ''A'') proRequest, Sleep 2375,
                   Invoke (Some ''A'') proRequest, Sleep 4375,
                   Invoke (Some ''A'') proRequest, Sleep 8375,
                   Invoke (Some ''A'') proRequest, Sleep 16375,
                   Invoke (Some ''A'') proRequest]\<rparr>)"
    by (intro conjI lt call unavailable_not_HardQuotaZero unavailable_not_RotationTrigger overloaded_run)
  from inst [THEN conjunct1, THEN spec, THEN spec, THEN spec, THEN mp, OF hyps]
  obtain jitter evs where step: "0 \<le> jitter" "jitter < 500"
    "trace \<lparr>keys = [], currentIndex = 0, initialized = False, draws = 4, calls = 5,
          trace = [Invoke (Some ''A'') proRequest, Sleep 2375,
                   Invoke (Some ''A'') proRequest, Sleep 4375,
                   Invoke (Some ''A'') proRequest, Sleep 8375,
                   Invoke (Some ''A'') proRequest, Sleep 16375,
                   Invoke (Some ''A'') proRequest]\<rparr> =
     trace initialState @ [Invoke (Some ''A'') proRequest, Sleep (2 ^ 1 * 1000 + jitter)] @ evs"
    by blast
  have first: "\<exists>jitter evs. 0 \<le> jitter \<and> jitter < 500 \<and>
      [Invoke (Some ''A'') proRequest, Sleep 2375,
       Invoke (Some ''A'') proRequest, Sleep 4375,
       Invoke (Some ''A'') proRequest, Sleep 8375,
       Invoke (Some ''A'') proRequest, Sleep 16375,
       Invoke (Some ''A'') proRequest] =
      trace initialState @ [Invoke (Some ''A'') proRequest, Sleep (2 ^ 1 * 1000 + jitter)] @ evs"
    using step by (intro exI [of _ jitter] exI [of _ evs]) (simp del: power_numeral)
  note whole = inst [THEN conjunct2, THEN conjunct1, THEN mp, OF netOverloaded_alwaysFails]
  show ?thesis
    by (intro conjI unitInterval_rndFixed lt call unavailable_not_HardQuotaZero
        unavailable_not_RotationTrigger overloaded_run first netOverloaded_alwaysFails whole)
qed

end
